theory Spec2Isabelle
  imports Complex_Main "HOL-Library.Sublist"
begin

section \<open>JavaScript values shared by the modules\<close>

text \<open>A thrown \<^verbatim>\<open>Error\<close> object is identified by its message.\<close>

datatype error = Error (message: string)

text \<open>
  A JavaScript number: a finite double, given by the rational it denotes, or one of
  \<^verbatim>\<open>Infinity\<close>, \<^verbatim>\<open>-Infinity\<close>, \<^verbatim>\<open>NaN\<close>.
\<close>

datatype js_number = Num rat | PlusInfinity | MinusInfinity | NaN

section \<open>Error classification (src/lib/error-recovery.ts, classifyError)\<close>

text \<open>
  \<^verbatim>\<open>String.prototype.toLowerCase\<close> on the ASCII letters; every other character is kept.
  Messages are modelled as ASCII strings.
\<close>

definition toLowerCase :: "string \<Rightarrow> string" where
  "toLowerCase s =
     map (\<lambda>c. case map_of (zip ''ABCDEFGHIJKLMNOPQRSTUVWXYZ'' ''abcdefghijklmnopqrstuvwxyz'') c of
                 Some l \<Rightarrow> l
               | None \<Rightarrow> c) s"

text \<open>\<^verbatim>\<open>s.includes(sub)\<close>: \<open>sub\<close> occurs in \<open>s\<close> as a contiguous substring.\<close>

fun str_includes :: "string \<Rightarrow> string \<Rightarrow> bool" where
  "str_includes [] sub = (sub = [])"
| "str_includes (c # cs) sub = (prefix sub (c # cs) \<or> str_includes cs sub)"

datatype error_category = network | validation | server | unknown

definition classifyError :: "error \<Rightarrow> error_category" where
  "classifyError err =
     (let msg = toLowerCase (message err) in
      if str_includes msg ''fetch'' \<or> str_includes msg ''network'' \<or> str_includes msg ''timeout''
      then network
      else if str_includes msg ''validation'' \<or> str_includes msg ''invalid''
      then validation
      else if str_includes msg ''500'' \<or> str_includes msg ''server''
      then server
      else unknown)"

definition getUserFriendlyMessage :: "error \<Rightarrow> string" where
  "getUserFriendlyMessage err =
     (case classifyError err of
        network \<Rightarrow> ''Connection failed. Please check your internet connection and try again.''
      | validation \<Rightarrow> ''Invalid input. Please check your data and try again.''
      | server \<Rightarrow> ''Server error. Please try again later.''
      | unknown \<Rightarrow> ''Something went wrong. Please try again.'')"

section \<open>Retry with backoff (src/lib/error-recovery.ts, retry)\<close>

text \<open>
  The loop counter \<^verbatim>\<open>attempt\<close> is a double that starts at 1 and is only incremented: it is an
  integer between 1 and \<open>2^53\<close>, where \<^verbatim>\<open>attempt++\<close> leaves it unchanged (\<open>2^53 + 1\<close> rounds back
  to \<open>2^53\<close>). \<^verbatim>\<open>attempt <= maxAttempts\<close> and \<^verbatim>\<open>attempt === maxAttempts\<close> compare it with any
  number.
\<close>

definition attempt_le :: "int \<Rightarrow> js_number \<Rightarrow> bool" where
  "attempt_le attempt m =
     (case m of Num q \<Rightarrow> of_int attempt \<le> q | PlusInfinity \<Rightarrow> True
      | MinusInfinity \<Rightarrow> False | NaN \<Rightarrow> False)"

definition attempt_eq :: "int \<Rightarrow> js_number \<Rightarrow> bool" where
  "attempt_eq attempt m =
     (case m of Num q \<Rightarrow> of_int attempt = q | PlusInfinity \<Rightarrow> False
      | MinusInfinity \<Rightarrow> False | NaN \<Rightarrow> False)"

definition attempt_incr :: "int \<Rightarrow> int" where
  "attempt_incr attempt = (if attempt < 2 ^ 53 then attempt + 1 else attempt)"

text \<open>
  \<^verbatim>\<open>delay * Math.pow(2, attempt - 1)\<close> on doubles. \<^verbatim>\<open>Math.pow(2, e)\<close> is the exact power for
  \<open>0 \<le> e \<le> 1023\<close> and \<^verbatim>\<open>Infinity\<close> from 1024 on. Multiplying a finite double by a power of two
  is exact unless the product reaches \<open>2^1024\<close> in magnitude, where it overflows to an infinity;
  zero times \<^verbatim>\<open>Infinity\<close> is \<^verbatim>\<open>NaN\<close>.
\<close>

definition rounded :: "rat \<Rightarrow> js_number" where
  "rounded q =
     (if 2 ^ 1024 \<le> \<bar>q\<bar> then (if 0 < q then PlusInfinity else MinusInfinity) else Num q)"

definition times_pow2 :: "js_number \<Rightarrow> int \<Rightarrow> js_number" where
  "times_pow2 x e =
     (case x of
        Num q \<Rightarrow>
          if e \<le> 1023 then rounded (q * 2 ^ nat e)
          else if q = 0 then NaN
          else if 0 < q then PlusInfinity else MinusInfinity
      | PlusInfinity \<Rightarrow> PlusInfinity
      | MinusInfinity \<Rightarrow> MinusInfinity
      | NaN \<Rightarrow> NaN)"

text \<open>The expression computing \<^verbatim>\<open>currentDelay\<close>.\<close>

definition scheduled_delay :: "js_number \<Rightarrow> bool \<Rightarrow> int \<Rightarrow> js_number" where
  "scheduled_delay delay backoff attempt =
     (if backoff then times_pow2 delay (attempt - 1) else delay)"

text \<open>
  An operation \<^verbatim>\<open>fn\<close> acts on a state \<open>'s\<close> (everything it can read or change) and either
  resolves (\<open>Inr\<close>) or rejects (\<open>Inl\<close>); the callback \<^verbatim>\<open>onRetry\<close> acts on the same state and
  either returns (\<open>None\<close>) or throws (\<open>Some\<close>). \<^verbatim>\<open>retry\<close> yields what it hands to its caller,
  the state afterwards and the trace of what it did, in order: each invocation of \<^verbatim>\<open>fn\<close>
  with its outcome, each call of \<^verbatim>\<open>onRetry\<close> with its arguments and what it threw, each
  \<^verbatim>\<open>setTimeout\<close> wait with its duration; nothing else touches the state during a wait. The
  value thrown by \<^verbatim>\<open>retry\<close> is \<open>Some\<close> error, or \<open>None\<close> for the JavaScript value \<^verbatim>\<open>undefined\<close>
  of the never-assigned \<^verbatim>\<open>lastError\<close>.
\<close>

datatype ('e, 'a) retry_event =
  Invoked "'e + 'a" | OnRetry int 'e "'e option" | Waited js_number

text \<open>
  \<^verbatim>\<open>if (onRetry) { onRetry(attempt, lastError); }\<close>: an exception of the callback is not
  caught, it leaves \<^verbatim>\<open>retry\<close> at once.
\<close>

definition call_onRetry ::
  "(int \<Rightarrow> 'e \<Rightarrow> 's \<Rightarrow> 'e option \<times> 's) option \<Rightarrow> int \<Rightarrow> 'e \<Rightarrow> 's
     \<Rightarrow> 'e option \<times> 's \<times> ('e, 'a) retry_event list" where
  "call_onRetry onRetry attempt err s =
     (case onRetry of
        None \<Rightarrow> (None, s, [])
      | Some callback \<Rightarrow>
          (case callback attempt err s of
             (thrown, s') \<Rightarrow> (thrown, s', [OnRetry attempt err thrown])))"

text \<open>
  The \<^verbatim>\<open>for\<close> loop of \<^verbatim>\<open>retry\<close> from a given value of \<^verbatim>\<open>attempt\<close>, and the final throw;
  \<open>sofar\<close> is the trace up to there. The loop need not end (\<^verbatim>\<open>maxAttempts\<close> may be
  \<^verbatim>\<open>Infinity\<close>, or beyond \<open>2^53\<close> where the counter stops growing): the value \<open>None\<close> stands for
  a call of \<^verbatim>\<open>retry\<close> that never settles.
\<close>

partial_function (option) retry_loop ::
  "('s \<Rightarrow> ('e + 'a) \<times> 's) \<Rightarrow> js_number \<Rightarrow> js_number \<Rightarrow> bool
     \<Rightarrow> (int \<Rightarrow> 'e \<Rightarrow> 's \<Rightarrow> 'e option \<times> 's) option
     \<Rightarrow> int \<Rightarrow> 'e option \<Rightarrow> 's \<Rightarrow> ('e, 'a) retry_event list
     \<Rightarrow> (('e option + 'a) \<times> 's \<times> ('e, 'a) retry_event list) option" where
  "retry_loop fn maxAttempts delay backoff onRetry attempt lastError s sofar =
     (if attempt_le attempt maxAttempts then
        (case fn s of
           (Inr result, s1) \<Rightarrow> Some (Inr result, s1, sofar @ [Invoked (Inr result)])
         | (Inl err, s1) \<Rightarrow>
             if attempt_eq attempt maxAttempts
             then Some (Inl (Some err), s1, sofar @ [Invoked (Inl err)])
             else
               (case call_onRetry onRetry attempt err s1 of
                  (Some thrown, s2, evs) \<Rightarrow>
                    Some (Inl (Some thrown), s2, sofar @ Invoked (Inl err) # evs)
                | (None, s2, evs) \<Rightarrow>
                    (let currentDelay = scheduled_delay delay backoff attempt
                     in retry_loop fn maxAttempts delay backoff onRetry (attempt_incr attempt)
                          (Some err) s2
                          (sofar @ Invoked (Inl err) # evs @ [Waited currentDelay]))))
      else Some (Inl lastError, s, sofar))"


text \<open>The options object; an absent key takes its default in the destructuring.\<close>

record ('e, 's) RetryOptions =
  maxAttempts :: "js_number option"
  delay :: "js_number option"
  backoff :: "bool option"
  onRetry :: "(int \<Rightarrow> 'e \<Rightarrow> 's \<Rightarrow> 'e option \<times> 's) option"

definition maxAttempts_of :: "('e, 's) RetryOptions \<Rightarrow> js_number" where
  "maxAttempts_of options = (case maxAttempts options of None \<Rightarrow> Num 3 | Some m \<Rightarrow> m)"

definition delay_of :: "('e, 's) RetryOptions \<Rightarrow> js_number" where
  "delay_of options = (case delay options of None \<Rightarrow> Num 1000 | Some d \<Rightarrow> d)"

definition backoff_of :: "('e, 's) RetryOptions \<Rightarrow> bool" where
  "backoff_of options = (case backoff options of None \<Rightarrow> True | Some b \<Rightarrow> b)"

definition retry ::
  "('s \<Rightarrow> ('e + 'a) \<times> 's) \<Rightarrow> ('e, 's) RetryOptions \<Rightarrow> 's
     \<Rightarrow> (('e option + 'a) \<times> 's \<times> ('e, 'a) retry_event list) option" where
  "retry fn options s =
     retry_loop fn (maxAttempts_of options) (delay_of options) (backoff_of options)
       (onRetry options) 1 None s []"

text \<open>
  Notions the properties of \<^verbatim>\<open>retry\<close> are stated with. The number of invocations in a
  trace. The events of one failed attempt that is followed by another: the invocation,
  the call of \<^verbatim>\<open>onRetry\<close> (when supplied) that returns, the wait. The events of a run of such
  attempts numbered from \<open>attempt\<close>. A run with limit \<open>M\<close> whose first attempt has number
  \<open>first\<close>: failed attempts, each followed by another, and then one last attempt that
  either resolves and is the result, or is attempt \<open>M\<close> and rejects with the error thrown,
  or is an earlier attempt after which \<^verbatim>\<open>onRetry\<close> throws the error thrown. And the replay of
  a trace: \<^verbatim>\<open>fn\<close> and the callback applied in the order of the trace, each to the state the
  previous one left, each with the outcome the trace records (\<open>None\<close> when one differs).
\<close>

definition invocations :: "('e, 'a) retry_event list \<Rightarrow> nat" where
  "invocations evs = length (filter (\<lambda>ev. case ev of Invoked r \<Rightarrow> True | _ \<Rightarrow> False) evs)"

definition between_attempts ::
  "bool \<Rightarrow> js_number \<Rightarrow> bool \<Rightarrow> int \<Rightarrow> 'e \<Rightarrow> ('e, 'a) retry_event list" where
  "between_attempts supplied d b attempt err =
     Invoked (Inl err) # (if supplied then [OnRetry attempt err None] else [])
       @ [Waited (scheduled_delay d b attempt)]"

fun failed_attempts ::
  "(int \<Rightarrow> 'e \<Rightarrow> ('e, 'a) retry_event list) \<Rightarrow> int \<Rightarrow> 'e list \<Rightarrow> ('e, 'a) retry_event list" where
  "failed_attempts rnd attempt [] = []"
| "failed_attempts rnd attempt (err # errs) =
     rnd attempt err @ failed_attempts rnd (attempt + 1) errs"

definition run_of ::
  "(int \<Rightarrow> 'e \<Rightarrow> ('e, 'a) retry_event list) \<Rightarrow> int \<Rightarrow> int \<Rightarrow> 'e option + 'a
     \<Rightarrow> ('e, 'a) retry_event list \<Rightarrow> bool" where
  "run_of rnd M first res evs =
     (\<exists>errs ending.
        evs = failed_attempts rnd first errs @ ending \<and> first + int (length errs) \<le> M \<and>
        ((\<exists>v. ending = [Invoked (Inr v)] \<and> res = Inr v) \<or>
         (\<exists>e. ending = [Invoked (Inl e)] \<and> first + int (length errs) = M \<and> res = Inl (Some e)) \<or>
         (\<exists>e t. ending = [Invoked (Inl e), OnRetry (first + int (length errs)) e (Some t)] \<and>
            first + int (length errs) < M \<and> res = Inl (Some t))))"

fun replay ::
  "('s \<Rightarrow> ('e + 'a) \<times> 's) \<Rightarrow> (int \<Rightarrow> 'e \<Rightarrow> 's \<Rightarrow> 'e option \<times> 's) option \<Rightarrow> 's
     \<Rightarrow> ('e, 'a) retry_event list \<Rightarrow> 's option" where
  "replay fn cb s [] = Some s"
| "replay fn cb s (Invoked r # evs) =
     (case fn s of (r', s') \<Rightarrow> if r' = r then replay fn cb s' evs else None)"
| "replay fn cb s (OnRetry attempt err thrown # evs) =
     (case cb of
        None \<Rightarrow> None
      | Some callback \<Rightarrow>
          (case callback attempt err s of
             (thrown', s') \<Rightarrow> if thrown' = thrown then replay fn cb s' evs else None))"
| "replay fn cb s (Waited d # evs) = replay fn cb s evs"

section \<open>Fetch with fallback (src/lib/error-recovery.ts, fetchWithFallback)\<close>

text \<open>
  What \<^verbatim>\<open>fetch\<close> resolves with: the \<^verbatim>\<open>ok\<close> flag, the status and its text, and the outcome of
  \<^verbatim>\<open>response.json()\<close> (the parsed payload, or the error it rejects with).
\<close>

record 'd response =
  ok :: bool
  status :: nat
  statusText :: string
  json :: "error + 'd"

text \<open>Decimal rendering of a number in a template literal.\<close>

fun show_nat :: "nat \<Rightarrow> string" where
  "show_nat n =
     (if n < 10 then [''0123456789'' ! n]
      else show_nat (n div 10) @ [''0123456789'' ! (n mod 10)])"

declare show_nat.simps [simp del]

text \<open>
  The body of the \<^verbatim>\<open>try\<close> block up to the parsed payload. The global \<^verbatim>\<open>fetch\<close> is a
  parameter: it rejects with a network error (\<open>Inl\<close>) or resolves with a response.
\<close>

definition fetch_json ::
  "(string \<Rightarrow> 'o \<Rightarrow> error + 'd response) \<Rightarrow> string \<Rightarrow> 'o \<Rightarrow> error + 'd" where
  "fetch_json fetch url options =
     (case fetch url options of
        Inl err \<Rightarrow> Inl err
      | Inr response \<Rightarrow>
          if \<not> ok response
          then Inl (Error (''HTTP '' @ show_nat (status response) @ '': '' @ statusText response))
          else json response)"

text \<open>
  \<^verbatim>\<open>fetchWithFallback(url, options, fallbackKey)\<close> on the module's \<^verbatim>\<open>fallbackCache\<close>: the
  outcome and the cache afterwards. \<^verbatim>\<open>if (fallbackKey)\<close> holds for a supplied, non-empty
  string only (the empty string is falsy).
\<close>

definition fetchWithFallback ::
  "(string \<Rightarrow> 'o \<Rightarrow> error + 'd response) \<Rightarrow> string \<Rightarrow> 'o \<Rightarrow> string option
     \<Rightarrow> (string \<rightharpoonup> 'd) \<Rightarrow> (error + 'd) \<times> (string \<rightharpoonup> 'd)" where
  "fetchWithFallback fetch url options fallbackKey fallbackCache =
     (case fetch_json fetch url options of
        Inr data \<Rightarrow>
          (case fallbackKey of
             None \<Rightarrow> (Inr data, fallbackCache)
           | Some key \<Rightarrow>
               if key \<noteq> [] then (Inr data, fallbackCache(key \<mapsto> data))
               else (Inr data, fallbackCache))
      | Inl err \<Rightarrow>
          (case fallbackKey of
             None \<Rightarrow> (Inl err, fallbackCache)
           | Some key \<Rightarrow>
               if key \<noteq> [] then
                 (case fallbackCache key of
                    Some cached \<Rightarrow> (Inr cached, fallbackCache)
                  | None \<Rightarrow> (Inl err, fallbackCache))
               else (Inl err, fallbackCache)))"

section \<open>Circuit breaker (src/lib/error-recovery.ts, class CircuitBreaker)\<close>

text \<open>
  The clock read by \<^verbatim>\<open>Date.now()\<close> (epoch milliseconds) is a field of the world the
  program runs in. An asynchronous operation \<^verbatim>\<open>fn: () => Promise<T>\<close> is a function of the
  world: it returns the value it resolves with (\<open>Inr\<close>) or the error it rejects with
  (\<open>Inl\<close>), and the world it leaves behind, whose clock it may have moved.
\<close>

record world =
  clock :: int

type_synonym ('a, 'z) operation = "'z world_scheme \<Rightarrow> (error + 'a) \<times> 'z world_scheme"

datatype cb_state = CLOSED | OPEN | HALF_OPEN

record CircuitBreaker =
  failures :: int
  lastFailureTime :: int
  state :: cb_state
  failureThreshold :: int
  resetTimeout :: int

text \<open>The constructor with its two parameters (defaults 5 and 60000).\<close>

definition new_CircuitBreaker :: "int option \<Rightarrow> int option \<Rightarrow> CircuitBreaker" where
  "new_CircuitBreaker threshold timeout =
     \<lparr>failures = 0, lastFailureTime = 0, state = CLOSED,
      failureThreshold = (case threshold of None \<Rightarrow> 5 | Some t \<Rightarrow> t),
      resetTimeout = (case timeout of None \<Rightarrow> 60000 | Some r \<Rightarrow> r)\<rparr>"

text \<open>
  The guard at the head of \<^verbatim>\<open>execute\<close>: an open breaker either moves to \<open>HALF_OPEN\<close>
  (reset timeout elapsed at the clock reading \<open>now\<close>) or throws; any other breaker passes
  unchanged. \<open>Inl\<close> is the thrown error, \<open>Inr\<close> the breaker the operation is invoked under.
\<close>

definition execute_guard :: "CircuitBreaker \<Rightarrow> int \<Rightarrow> error + CircuitBreaker" where
  "execute_guard cb now =
     (if state cb = OPEN then
        (if now - lastFailureTime cb > resetTimeout cb
         then Inr (cb\<lparr>state := HALF_OPEN\<rparr>)
         else Inl (Error ''Circuit breaker is OPEN''))
      else Inr cb)"

definition onSuccess :: "CircuitBreaker \<Rightarrow> CircuitBreaker" where
  "onSuccess cb = cb\<lparr>failures := 0, state := CLOSED\<rparr>"

definition onFailure :: "CircuitBreaker \<Rightarrow> int \<Rightarrow> CircuitBreaker" where
  "onFailure cb now =
     (let cb1 = cb\<lparr>failures := failures cb + 1, lastFailureTime := now\<rparr>
      in if failures cb1 \<ge> failureThreshold cb1 then cb1\<lparr>state := OPEN\<rparr> else cb1)"

text \<open>
  \<^verbatim>\<open>execute(fn)\<close> called in world \<open>w\<close>: the outcome handed to the caller, the breaker
  afterwards and the world afterwards. When the guard throws, \<open>fn\<close> is not applied.
\<close>

definition execute ::
  "CircuitBreaker \<Rightarrow> ('a, 'z) operation \<Rightarrow> 'z world_scheme
     \<Rightarrow> (error + 'a) \<times> CircuitBreaker \<times> 'z world_scheme" where
  "execute cb fn w =
     (case execute_guard cb (clock w) of
        Inl e \<Rightarrow> (Inl e, cb, w)
      | Inr cb1 \<Rightarrow>
          (case fn w of
             (Inr result, w') \<Rightarrow> (Inr result, onSuccess cb1, w')
           | (Inl err, w') \<Rightarrow> (Inl err, onFailure cb1 (clock w'), w')))"


text \<open>
  A sequence of \<^verbatim>\<open>execute\<close> calls on one breaker, each settled before the next is made.
  Each call comes with the world it is made in: what happens between two calls (how much
  time passes in particular) is not constrained.
\<close>

fun executes ::
  "CircuitBreaker \<Rightarrow> ('z world_scheme \<times> ('a, 'z) operation) list \<Rightarrow> CircuitBreaker" where
  "executes cb [] = cb"
| "executes cb ((w, fn) # calls) = executes (fst (snd (execute cb fn w))) calls"


text \<open>
  Calls that overlap: \<^verbatim>\<open>execute\<close> runs its guard when it is entered and \<^verbatim>\<open>onSuccess\<close> or
  \<^verbatim>\<open>onFailure\<close> when its operation settles, and between the two the \<^verbatim>\<open>await\<close> lets other calls
  on the same breaker run. Each of the three is one uninterrupted step on the breaker;
  overlapping calls amount to some sequence of such steps.
\<close>

datatype cb_event = Entered int | Resolved | Rejected int

fun cb_step :: "CircuitBreaker \<Rightarrow> cb_event \<Rightarrow> CircuitBreaker" where
  "cb_step cb (Entered now) = (case execute_guard cb now of Inl e \<Rightarrow> cb | Inr cb1 \<Rightarrow> cb1)"
| "cb_step cb Resolved = onSuccess cb"
| "cb_step cb (Rejected now) = onFailure cb now"

text \<open>The invariant kept by every \<^verbatim>\<open>execute\<close> call.\<close>

definition cb_inv :: "CircuitBreaker \<Rightarrow> bool" where
  "cb_inv cb = (state cb \<noteq> HALF_OPEN \<and> (state cb \<noteq> OPEN \<or> failures cb \<ge> failureThreshold cb))"

section \<open>Error log ingestion (the error-log route, src/app/api/test-error/route.ts)\<close>

subsection \<open>JSON values and the schema\<close>

text \<open>
  A parsed JSON value. An object is the list of its properties, each key once; a number
  is the rational its literal denotes.
\<close>

datatype json_value =
  JNull
| JBool bool
| JNumber rat
| JString string
| JArray "json_value list"
| JObject "(string \<times> json_value) list"

text \<open>
  The part of zod the schema uses: \<^verbatim>\<open>z.string()\<close> with its chained checks, \<^verbatim>\<open>z.number()\<close>,
  \<^verbatim>\<open>z.enum([...])\<close> and \<^verbatim>\<open>.optional()\<close>. Whether a string is a URL (\<^verbatim>\<open>new URL(s)\<close> does not
  throw) is decided by the parameter \<open>is_url\<close>.
\<close>

datatype string_check = Max nat | Url

datatype zod_type =
  ZString "string_check list"
| ZNumber
| ZEnum "string list"
| ZOptional zod_type

fun check_passes :: "(string \<Rightarrow> bool) \<Rightarrow> string \<Rightarrow> string_check \<Rightarrow> bool" where
  "check_passes is_url s (Max n) = (length s \<le> n)"
| "check_passes is_url s Url = is_url s"

text \<open>
  Whether a schema type accepts the value found under a key (\<open>None\<close>: the key is absent).
\<close>

fun zod_accepts :: "(string \<Rightarrow> bool) \<Rightarrow> zod_type \<Rightarrow> json_value option \<Rightarrow> bool" where
  "zod_accepts is_url (ZOptional t) None = True"
| "zod_accepts is_url (ZOptional t) (Some v) = zod_accepts is_url t (Some v)"
| "zod_accepts is_url (ZString checks) (Some (JString s)) = list_all (check_passes is_url s) checks"
| "zod_accepts is_url ZNumber (Some (JNumber n)) = True"
| "zod_accepts is_url (ZEnum values) (Some (JString s)) = (s \<in> set values)"
| "zod_accepts is_url t v = False"

text \<open>
  \<^verbatim>\<open>z.object(shape).parse(input)\<close>: \<open>Inl\<close> is the thrown \<^verbatim>\<open>ZodError\<close> with the keys of the
  rejected fields (the empty path when the input is not an object); \<open>Inr\<close> is the parsed
  object, which keeps the properties of the shape that are present, in the order of the
  shape, and drops every other key.
\<close>

definition z_object_parse ::
  "(string \<Rightarrow> bool) \<Rightarrow> (string \<times> zod_type) list \<Rightarrow> json_value \<Rightarrow> string list + json_value" where
  "z_object_parse is_url shape input =
     (case input of
        JObject props \<Rightarrow>
          (let issues = map fst (filter (\<lambda>(key, t). \<not> zod_accepts is_url t (map_of props key)) shape)
           in if issues = []
              then Inr (JObject (List.map_filter
                     (\<lambda>(key, t). map_option (Pair key) (map_of props key)) shape))
              else Inl issues)
      | _ \<Rightarrow> Inl [[]])"

definition ErrorLogSchema :: "(string \<times> zod_type) list" where
  "ErrorLogSchema =
     [(''message'', ZString [Max 1000]),
      (''stack'', ZOptional (ZString [])),
      (''url'', ZString [Url]),
      (''lineNumber'', ZOptional ZNumber),
      (''columnNumber'', ZOptional ZNumber),
      (''browser'', ZOptional (ZString [])),
      (''os'', ZOptional (ZString [])),
      (''timestamp'', ZNumber),
      (''type'', ZEnum [''error'', ''unhandledrejection'']),
      (''userAgent'', ZOptional (ZString []))]"

subsection \<open>Rate limiting\<close>

record RateLimitRecord =
  count :: int
  resetTime :: int

text \<open>
  \<^verbatim>\<open>checkRateLimit(ip)\<close> at clock reading \<open>now\<close> on the module's \<^verbatim>\<open>rateLimitStore\<close>: the
  decision and the store afterwards.
\<close>

definition checkRateLimit ::
  "int \<Rightarrow> string \<Rightarrow> (string \<rightharpoonup> RateLimitRecord) \<Rightarrow> bool \<times> (string \<rightharpoonup> RateLimitRecord)" where
  "checkRateLimit now ip rateLimitStore =
     (let windowMs = 60 * 1000; maxRequests = 10 in
      case rateLimitStore ip of
        None \<Rightarrow> (True, rateLimitStore(ip \<mapsto> \<lparr>count = 1, resetTime = now + windowMs\<rparr>))
      | Some entry \<Rightarrow>
          if now > resetTime entry
          then (True, rateLimitStore(ip \<mapsto> \<lparr>count = 1, resetTime = now + windowMs\<rparr>))
          else if count entry \<ge> maxRequests then (False, rateLimitStore)
          else (True, rateLimitStore(ip \<mapsto> entry\<lparr>count := count entry + 1\<rparr>)))"

text \<open>Successive requests of one client, at the given clock readings.\<close>

fun checkRateLimits ::
  "string \<Rightarrow> int list \<Rightarrow> (string \<rightharpoonup> RateLimitRecord) \<Rightarrow> bool list \<times> (string \<rightharpoonup> RateLimitRecord)" where
  "checkRateLimits ip [] store = ([], store)"
| "checkRateLimits ip (now # later) store =
     (case checkRateLimit now ip store of
        (admitted, store1) \<Rightarrow>
          (case checkRateLimits ip later store1 of
             (decisions, store2) \<Rightarrow> (admitted # decisions, store2)))"

subsection \<open>The log file\<close>

text \<open>
  The part of the file system the handler touches: whether the \<^verbatim>\<open>logs\<close> directory exists,
  the content of \<^verbatim>\<open>logs/frontend-errors.log\<close> (empty when the file does not exist), and what
  the operating system answers to the next \<^verbatim>\<open>mkdirSync\<close> and \<^verbatim>\<open>appendFileSync\<close>: the error
  they throw, if any. Each call returns the error thrown and the file system afterwards.
\<close>

record filesystem =
  logDirExists :: bool
  logFile :: string
  mkdirError :: "error option"
  appendError :: "error option"

definition mkdirSync :: "filesystem \<Rightarrow> error option \<times> filesystem" where
  "mkdirSync fs =
     (case mkdirError fs of
        Some err \<Rightarrow> (Some err, fs)
      | None \<Rightarrow> (None, fs\<lparr>logDirExists := True\<rparr>))"

definition appendFileSync :: "filesystem \<Rightarrow> string \<Rightarrow> error option \<times> filesystem" where
  "appendFileSync fs data =
     (case appendError fs of
        Some err \<Rightarrow> (Some err, fs)
      | None \<Rightarrow>
          if logDirExists fs then (None, fs\<lparr>logFile := logFile fs @ data\<rparr>)
          else (Some (Error ''ENOENT: no such file or directory''), fs))"

text \<open>The persistence step: create the directory if it is missing, then append the line.\<close>

definition persist :: "filesystem \<Rightarrow> string \<Rightarrow> error option \<times> filesystem" where
  "persist fs line =
     (case (if \<not> logDirExists fs then mkdirSync fs else (None, fs)) of
        (Some err, fs1) \<Rightarrow> (Some err, fs1)
      | (None, fs1) \<Rightarrow> appendFileSync fs1 line)"

subsection \<open>The POST handler\<close>

text \<open>
  What the handler reads of the request: \<^verbatim>\<open>request.ip\<close>, the \<^verbatim>\<open>x-forwarded-for\<close> header, and
  the outcome of \<^verbatim>\<open>request.json()\<close> (\<open>None\<close>: the body is not JSON and the call rejects).
\<close>

record request =
  request_ip :: "string option"
  x_forwarded_for :: "string option"
  json_body :: "json_value option"

record server =
  rateLimitStore :: "string \<rightharpoonup> RateLimitRecord"
  files :: filesystem

datatype next_response = NextResponse (response_body: json_value) (response_status: nat)

datatype thrown = SyntaxError | ZodError "string list" | FsError error

text \<open>\<^verbatim>\<open>request.ip || request.headers.get('x-forwarded-for') || 'unknown'\<close>\<close>

definition client_ip :: "request \<Rightarrow> string" where
  "client_ip req =
     (case request_ip req of
        Some a \<Rightarrow> if a \<noteq> [] then a else
          (case x_forwarded_for req of
             Some h \<Rightarrow> if h \<noteq> [] then h else ''unknown''
           | None \<Rightarrow> ''unknown'')
      | None \<Rightarrow>
          (case x_forwarded_for req of
             Some h \<Rightarrow> if h \<noteq> [] then h else ''unknown''
           | None \<Rightarrow> ''unknown''))"

text \<open>\<^verbatim>\<open>{...validatedData, ip, serverTimestamp: Date.now()}\<close>\<close>

definition errorLog_of :: "json_value \<Rightarrow> string \<Rightarrow> int \<Rightarrow> json_value" where
  "errorLog_of validatedData ip now =
     (case validatedData of
        JObject props \<Rightarrow>
          JObject (props @ [(''ip'', JString ip), (''serverTimestamp'', JNumber (of_int now))])
      | other \<Rightarrow> other)"

text \<open>
  The \<^verbatim>\<open>try\<close> block of \<^verbatim>\<open>POST\<close>: the response it returns or the value thrown inside it,
  and the server state afterwards. \<open>stringify\<close> is \<^verbatim>\<open>JSON.stringify\<close>; \<open>now\<close> is the clock
  reading inside \<^verbatim>\<open>checkRateLimit\<close> and \<open>now'\<close> the one taken for \<^verbatim>\<open>serverTimestamp\<close>.
  Console output is not modelled.
\<close>

definition POST_try ::
  "(string \<Rightarrow> bool) \<Rightarrow> (json_value \<Rightarrow> string) \<Rightarrow> int \<Rightarrow> int \<Rightarrow> request \<Rightarrow> server
     \<Rightarrow> (thrown + next_response) \<times> server" where
  "POST_try is_url stringify now now' req srv =
     (let ip = client_ip req in
      case checkRateLimit now ip (rateLimitStore srv) of
        (admitted, store1) \<Rightarrow>
          (let srv1 = srv\<lparr>rateLimitStore := store1\<rparr> in
           if \<not> admitted
           then (Inr (NextResponse
                   (JObject [(''success'', JBool False), (''error'', JString ''Rate limit exceeded'')])
                   429), srv1)
           else
             (case json_body req of
                None \<Rightarrow> (Inl SyntaxError, srv1)
              | Some body \<Rightarrow>
                  (case z_object_parse is_url ErrorLogSchema body of
                     Inl issues \<Rightarrow> (Inl (ZodError issues), srv1)
                   | Inr validatedData \<Rightarrow>
                       (let errorLog = errorLog_of validatedData ip now' in
                        case persist (files srv1) (stringify errorLog @ [CHR 0x0A]) of
                          (Some err, fs1) \<Rightarrow> (Inl (FsError err), srv1\<lparr>files := fs1\<rparr>)
                        | (None, fs1) \<Rightarrow>
                            (Inr (NextResponse (JObject [(''success'', JBool True)]) 200),
                             srv1\<lparr>files := fs1\<rparr>))))))"

definition POST ::
  "(string \<Rightarrow> bool) \<Rightarrow> (json_value \<Rightarrow> string) \<Rightarrow> int \<Rightarrow> int \<Rightarrow> request \<Rightarrow> server
     \<Rightarrow> next_response \<times> server" where
  "POST is_url stringify now now' req srv =
     (case POST_try is_url stringify now now' req srv of
        (Inr response, srv1) \<Rightarrow> (response, srv1)
      | (Inl err, srv1) \<Rightarrow>
          (NextResponse
             (JObject [(''success'', JBool False), (''error'', JString ''Invalid error log format'')])
             400, srv1))"

section \<open>Sample inputs\<close>

text \<open>Concrete operations and requests at which the theorems below are instantiated.\<close>

definition always_rejects :: "(nat, unit) operation" where
  "always_rejects w = (Inl (Error ''boom''), w)"


definition flaky_twice :: "nat \<times> int list \<Rightarrow> (error + nat) \<times> nat \<times> int list" where
  "flaky_twice st =
     (case st of (n, calls) \<Rightarrow>
        (if n < 2 then Inl (Error ''fetch failed'') else Inr n, (n + 1, calls)))"

definition always_down :: "nat \<times> int list \<Rightarrow> (error + nat) \<times> nat \<times> int list" where
  "always_down st =
     (case st of (n, calls) \<Rightarrow> (Inl (Error (''down '' @ replicate n CHR ''!'')), (n + 1, calls)))"

definition noting_onRetry :: "int \<Rightarrow> error \<Rightarrow> nat \<times> int list \<Rightarrow> error option \<times> nat \<times> int list" where
  "noting_onRetry attempt err st = (case st of (n, calls) \<Rightarrow> (None, (n, calls @ [attempt])))"

definition failing_onRetry :: "int \<Rightarrow> error \<Rightarrow> nat \<times> int list \<Rightarrow> error option \<times> nat \<times> int list" where
  "failing_onRetry attempt err st =
     (case st of (n, calls) \<Rightarrow> (Some (Error ''callback failed''), (n, calls @ [attempt])))"

definition three_attempts :: "(error, nat \<times> int list) RetryOptions" where
  "three_attempts =
     \<lparr>maxAttempts = Some (Num 3), delay = None, backoff = None, onRetry = Some noting_onRetry\<rparr>"

definition two_and_a_half_attempts :: "(error, nat \<times> int list) RetryOptions" where
  "two_and_a_half_attempts =
     \<lparr>maxAttempts = Some (Num (5 / 2)), delay = None, backoff = None,
      onRetry = Some noting_onRetry\<rparr>"

definition three_attempts_failing_callback :: "(error, nat \<times> int list) RetryOptions" where
  "three_attempts_failing_callback =
     \<lparr>maxAttempts = Some (Num 3), delay = None, backoff = None, onRetry = Some failing_onRetry\<rparr>"

definition no_attempts :: "(error, nat \<times> int list) RetryOptions" where
  "no_attempts = \<lparr>maxAttempts = Some (Num 0), delay = None, backoff = None, onRetry = None\<rparr>"

definition huge_attempts :: "(error, nat \<times> int list) RetryOptions" where
  "huge_attempts =
     \<lparr>maxAttempts = Some (Num (2 ^ 53 + 2)), delay = None, backoff = None, onRetry = None\<rparr>"

definition fetch_ok :: "string \<Rightarrow> unit \<Rightarrow> error + nat response" where
  "fetch_ok url options = Inr \<lparr>ok = True, status = 200, statusText = ''OK'', json = Inr 7\<rparr>"

definition fetch_down :: "string \<Rightarrow> unit \<Rightarrow> error + nat response" where
  "fetch_down url options = Inl (Error ''fetch failed'')"

definition fetch_503 :: "string \<Rightarrow> unit \<Rightarrow> error + nat response" where
  "fetch_503 url options =
     Inr \<lparr>ok = False, status = 503, statusText = ''Service Unavailable'', json = Inr 0\<rparr>"

definition no_entries :: "string \<rightharpoonup> nat" where
  "no_entries = Map.empty"

text \<open>
  A URL check and a serialiser to run the handler on concrete requests: \<^verbatim>\<open>new URL\<close> accepts
  every absolute http(s) URL, and the serialiser prints flat objects of strings without
  special characters and of natural numbers the way \<^verbatim>\<open>JSON.stringify\<close> does.
\<close>

definition sample_is_url :: "string \<Rightarrow> bool" where
  "sample_is_url s = (prefix ''https://'' s \<or> prefix ''http://'' s)"

fun sample_stringify_value :: "json_value \<Rightarrow> string" where
  "sample_stringify_value (JString s) = [CHR 0x22] @ s @ [CHR 0x22]"
| "sample_stringify_value (JNumber q) = show_nat (nat \<lfloor>q\<rfloor>)"
| "sample_stringify_value (JBool b) = (if b then ''true'' else ''false'')"
| "sample_stringify_value v = ''null''"

fun sample_stringify_props :: "(string \<times> json_value) list \<Rightarrow> string" where
  "sample_stringify_props [] = []"
| "sample_stringify_props [(k, v)] = [CHR 0x22] @ k @ [CHR 0x22] @ '':'' @ sample_stringify_value v"
| "sample_stringify_props ((k, v) # props) =
     [CHR 0x22] @ k @ [CHR 0x22] @ '':'' @ sample_stringify_value v @ '','' @ sample_stringify_props props"

definition sample_stringify :: "json_value \<Rightarrow> string" where
  "sample_stringify j =
     (case j of
        JObject props \<Rightarrow> ''{'' @ sample_stringify_props props @ ''}''
      | v \<Rightarrow> sample_stringify_value v)"

definition report_with_message :: "string \<Rightarrow> json_value" where
  "report_with_message m =
     JObject [(''message'', JString m), (''url'', JString ''https://sbtech.example/contact''),
              (''timestamp'', JNumber 1700000000000), (''type'', JString ''error'')]"

definition report_without_message :: json_value where
  "report_without_message =
     JObject [(''url'', JString ''https://sbtech.example/contact''),
              (''timestamp'', JNumber 1700000000000), (''type'', JString ''error'')]"

definition request_from :: "string \<Rightarrow> json_value \<Rightarrow> request" where
  "request_from addr j = \<lparr>request_ip = Some addr, x_forwarded_for = None, json_body = Some j\<rparr>"

definition no_records :: "string \<rightharpoonup> RateLimitRecord" where
  "no_records = Map.empty"

definition fresh_server :: server where
  "fresh_server =
     \<lparr>rateLimitStore = no_records,
      files = \<lparr>logDirExists = False, logFile = [], mkdirError = None, appendError = None\<rparr>\<rparr>"

definition limited_server :: server where
  "limited_server =
     \<lparr>rateLimitStore = no_records(''10.0.0.1'' \<mapsto> \<lparr>count = 10, resetTime = 60005\<rparr>),
      files = \<lparr>logDirExists = True, logFile = [], mkdirError = None, appendError = None\<rparr>\<rparr>"

definition readonly_server :: server where
  "readonly_server =
     \<lparr>rateLimitStore = no_records,
      files = \<lparr>logDirExists = True, logFile = [], mkdirError = None,
               appendError = Some (Error ''EACCES: permission denied'')\<rparr>\<rparr>"

section \<open>Properties of the error classifier\<close>

lemma str_includes_iff: "str_includes s sub \<longleftrightarrow> (\<exists>ps ss. s = ps @ sub @ ss)"
proof (induction s)
  case Nil
  then show ?case by auto
next
  case (Cons c cs)
  show ?case
  proof
    assume "str_includes (c # cs) sub"
    then consider "prefix sub (c # cs)" | "str_includes cs sub" by auto
    then show "\<exists>ps ss. c # cs = ps @ sub @ ss"
    proof cases
      case 1
      then obtain ss where "c # cs = sub @ ss" by (auto simp: prefix_def)
      then have "c # cs = [] @ sub @ ss" by simp
      then show ?thesis by blast
    next
      case 2
      with Cons.IH obtain ps ss where "cs = ps @ sub @ ss" by blast
      then have "c # cs = (c # ps) @ sub @ ss" by simp
      then show ?thesis by blast
    qed
  next
    assume "\<exists>ps ss. c # cs = ps @ sub @ ss"
    then obtain ps ss where eq: "c # cs = ps @ sub @ ss" by blast
    show "str_includes (c # cs) sub"
    proof (cases ps)
      case Nil
      with eq have "prefix sub (c # cs)" by (simp add: prefix_def)
      then show ?thesis by simp
    next
      case (Cons p ps')
      with eq have "cs = ps' @ sub @ ss" by simp
      with Cons.IH have "str_includes cs sub" by blast
      then show ?thesis by simp
    qed
  qed
qed

text \<open>
  C9. \<open>classifyError\<close> looks in the lowercased message for the network keywords
  (fetch, network, timeout) first, then for the validation keywords (validation, invalid),
  then for the server keywords (500, server); the first group with a keyword occurring as a
  substring decides, and the answer is \<open>unknown\<close> when no keyword occurs. The four messages
  of the specification are classified as network, validation, server and unknown, and a
  message with keywords of several groups gets the earliest group.
\<close>

theorem classifyError_first_match:
  "classifyError (Error m) =
     (if sublist ''fetch'' (toLowerCase m) \<or> sublist ''network'' (toLowerCase m)
         \<or> sublist ''timeout'' (toLowerCase m) then network
      else if sublist ''validation'' (toLowerCase m) \<or> sublist ''invalid'' (toLowerCase m)
      then validation
      else if sublist ''500'' (toLowerCase m) \<or> sublist ''server'' (toLowerCase m) then server
      else unknown)
   \<and> classifyError (Error ''fetch failed: timeout'') = network
   \<and> classifyError (Error ''Invalid input: email'') = validation
   \<and> classifyError (Error ''500 Internal'') = server
   \<and> classifyError (Error ''whatever'') = unknown
   \<and> classifyError (Error ''Invalid server response: network down'') = network
   \<and> classifyError (Error ''Server said: invalid'') = validation"
proof -
  have general: "classifyError (Error m) =
     (if sublist ''fetch'' (toLowerCase m) \<or> sublist ''network'' (toLowerCase m)
         \<or> sublist ''timeout'' (toLowerCase m) then network
      else if sublist ''validation'' (toLowerCase m) \<or> sublist ''invalid'' (toLowerCase m)
      then validation
      else if sublist ''500'' (toLowerCase m) \<or> sublist ''server'' (toLowerCase m) then server
      else unknown)"
    unfolding classifyError_def Let_def str_includes_iff sublist_def by simp
  have e1: "classifyError (Error ''fetch failed: timeout'') = network"
    by (simp add: classifyError_def toLowerCase_def)
  have e2: "classifyError (Error ''Invalid input: email'') = validation"
    by (simp add: classifyError_def toLowerCase_def)
  have e3: "classifyError (Error ''500 Internal'') = server"
    by (simp add: classifyError_def toLowerCase_def)
  have e4: "classifyError (Error ''whatever'') = unknown"
    by (simp add: classifyError_def toLowerCase_def)
  have e5: "classifyError (Error ''Invalid server response: network down'') = network"
    by (simp add: classifyError_def toLowerCase_def)
  have e6: "classifyError (Error ''Server said: invalid'') = validation"
    by (simp add: classifyError_def toLowerCase_def)
  from general e1 e2 e3 e4 e5 e6 show ?thesis by blast
qed

section \<open>Properties of the circuit breaker\<close>



lemma execute_inv: "cb_inv cb \<Longrightarrow> cb_inv (fst (snd (execute cb fn w)))"
  by (auto simp: cb_inv_def execute_def execute_guard_def onSuccess_def onFailure_def Let_def
      split: sum.splits prod.splits if_splits)

lemma executes_inv: "cb_inv cb \<Longrightarrow> cb_inv (executes cb calls)"
  by (induction calls arbitrary: cb) (auto simp: execute_inv)








lemma cb_step_open:
  "state cb = OPEN \<longrightarrow> failures cb \<ge> failureThreshold cb \<Longrightarrow>
   state (cb_step cb st) = OPEN \<longrightarrow> failures (cb_step cb st) \<ge> failureThreshold (cb_step cb st)"
  by (cases st)
     (auto simp: execute_guard_def onSuccess_def onFailure_def Let_def split: if_splits)

lemma cb_steps_open:
  "state cb = OPEN \<longrightarrow> failures cb \<ge> failureThreshold cb \<Longrightarrow>
   state (foldl cb_step cb steps) = OPEN \<longrightarrow>
     failures (foldl cb_step cb steps) \<ge> failureThreshold (foldl cb_step cb steps)"
proof (induction steps arbitrary: cb)
  case Nil
  then show ?case by simp
next
  case (Cons st steps)
  from Cons.IH[OF cb_step_open[OF Cons.prems]] show ?case by simp
qed

text \<open>
  C8. In every state reached from a new breaker by any sequence of \<^verbatim>\<open>execute\<close> calls,
  \<open>state = OPEN\<close> implies \<open>failures \<ge> failureThreshold\<close>, and the same holds after any
  sequence of steps of overlapping calls. The state \<open>HALF_OPEN\<close> is entered only by the
  guard of \<^verbatim>\<open>execute\<close>, from \<open>OPEN\<close>, at a clock reading more than \<open>resetTimeout\<close> after
  \<open>lastFailureTime\<close>: no call ends in \<open>HALF_OPEN\<close>, and neither \<^verbatim>\<open>onSuccess\<close> nor
  \<^verbatim>\<open>onFailure\<close> produces it.
\<close>

theorem circuit_breaker_invariant:
  "(state (executes (new_CircuitBreaker threshold timeout) calls) = OPEN \<longrightarrow>
      failures (executes (new_CircuitBreaker threshold timeout) calls)
        \<ge> failureThreshold (executes (new_CircuitBreaker threshold timeout) calls))
   \<and> (state (foldl cb_step (new_CircuitBreaker threshold timeout) steps) = OPEN \<longrightarrow>
      failures (foldl cb_step (new_CircuitBreaker threshold timeout) steps)
        \<ge> failureThreshold (foldl cb_step (new_CircuitBreaker threshold timeout) steps))
   \<and> state (executes (new_CircuitBreaker threshold timeout) calls) \<noteq> HALF_OPEN
   \<and> (\<forall>now cb'.
        execute_guard (executes (new_CircuitBreaker threshold timeout) calls) now = Inr cb' \<and>
        state cb' = HALF_OPEN \<longrightarrow>
          state (executes (new_CircuitBreaker threshold timeout) calls) = OPEN \<and>
          now - lastFailureTime (executes (new_CircuitBreaker threshold timeout) calls)
            > resetTimeout (executes (new_CircuitBreaker threshold timeout) calls))
   \<and> (\<forall>c now. state (onSuccess c) \<noteq> HALF_OPEN \<and>
         (state (onFailure c now) = HALF_OPEN \<longrightarrow> state c = HALF_OPEN))"
proof -
  let ?cb = "executes (new_CircuitBreaker threshold timeout) calls"
  have "cb_inv (new_CircuitBreaker threshold timeout)"
    by (simp add: cb_inv_def new_CircuitBreaker_def)
  then have inv: "cb_inv ?cb" by (rule executes_inv)
  have steps: "state (foldl cb_step (new_CircuitBreaker threshold timeout) steps) = OPEN \<longrightarrow>
      failures (foldl cb_step (new_CircuitBreaker threshold timeout) steps)
        \<ge> failureThreshold (foldl cb_step (new_CircuitBreaker threshold timeout) steps)"
    by (rule cb_steps_open) (simp add: new_CircuitBreaker_def)
  have guard: "\<forall>now cb'. execute_guard ?cb now = Inr cb' \<and> state cb' = HALF_OPEN \<longrightarrow>
      state ?cb = OPEN \<and> now - lastFailureTime ?cb > resetTimeout ?cb"
    using inv by (auto simp: execute_guard_def cb_inv_def split: if_splits)
  have on: "\<forall>c now. state (onSuccess c) \<noteq> HALF_OPEN \<and>
         (state (onFailure c now) = HALF_OPEN \<longrightarrow> state c = HALF_OPEN)"
    by (auto simp: onSuccess_def onFailure_def Let_def split: if_splits)
  from inv steps guard on show ?thesis unfolding cb_inv_def by blast
qed


text \<open>
  The default breaker after five failures at clock 1000 is open with five failures, and
  its guard lets a call through, in \<open>HALF_OPEN\<close>, at clock 61001.
\<close>

theorem circuit_breaker_invariant_witness:
  "state (executes (new_CircuitBreaker None None)
      (replicate 5 (\<lparr>clock = 1000\<rparr>, always_rejects))) = OPEN
   \<and> failures (executes (new_CircuitBreaker None None)
      (replicate 5 (\<lparr>clock = 1000\<rparr>, always_rejects)))
      \<ge> failureThreshold (executes (new_CircuitBreaker None None)
      (replicate 5 (\<lparr>clock = 1000\<rparr>, always_rejects)))
   \<and> execute_guard (executes (new_CircuitBreaker None None)
      (replicate 5 (\<lparr>clock = 1000\<rparr>, always_rejects))) 61001
      = Inr \<lparr>failures = 5, lastFailureTime = 1000, state = HALF_OPEN, failureThreshold = 5,
          resetTimeout = 60000\<rparr>
   \<and> 61001 - lastFailureTime (executes (new_CircuitBreaker None None)
      (replicate 5 (\<lparr>clock = 1000\<rparr>, always_rejects)))
      > resetTimeout (executes (new_CircuitBreaker None None)
      (replicate 5 (\<lparr>clock = 1000\<rparr>, always_rejects)))"
proof -
  let ?calls = "replicate 5 (\<lparr>clock = 1000\<rparr>, always_rejects)"
  let ?cb = "executes (new_CircuitBreaker None None) ?calls"
  have cb: "?cb = \<lparr>failures = 5, lastFailureTime = 1000, state = OPEN, failureThreshold = 5,
      resetTimeout = 60000\<rparr>"
    by (simp add: eval_nat_numeral new_CircuitBreaker_def execute_def execute_guard_def
        onFailure_def always_rejects_def)
  have g: "execute_guard ?cb 61001
      = Inr \<lparr>failures = 5, lastFailureTime = 1000, state = HALF_OPEN, failureThreshold = 5,
          resetTimeout = 60000\<rparr>"
    unfolding cb by (simp add: execute_guard_def)
  from circuit_breaker_invariant[of None None ?calls] cb g show ?thesis by simp
qed

section \<open>Properties of retry\<close>

lemma invocations_simps [simp]:
  "invocations [] = 0"
  "invocations (Invoked r # evs) = Suc (invocations evs)"
  "invocations (OnRetry k e t # evs) = invocations evs"
  "invocations (Waited d # evs) = invocations evs"
  "invocations (xs @ ys) = invocations xs + invocations ys"
  by (simp_all add: invocations_def)

lemma call_onRetry_cases:
  fixes cb :: "(int \<Rightarrow> 'e \<Rightarrow> 's \<Rightarrow> 'e option \<times> 's) option"
  obtains (absent) "cb = None"
      "(call_onRetry cb a err s1 :: 'e option \<times> 's \<times> ('e, 'a) retry_event list) = (None, s1, [])"
  | (returned) f s2 where "cb = Some f" "f a err s1 = (None, s2)"
      "(call_onRetry cb a err s1 :: 'e option \<times> 's \<times> ('e, 'a) retry_event list)
         = (None, s2, [OnRetry a err None])"
  | (threw) f t s2 where "cb = Some f" "f a err s1 = (Some t, s2)"
      "(call_onRetry cb a err s1 :: 'e option \<times> 's \<times> ('e, 'a) retry_event list)
         = (Some t, s2, [OnRetry a err (Some t)])"
proof (cases cb)
  case None
  then show ?thesis using absent by (simp add: call_onRetry_def)
next
  case (Some f)
  obtain t s2 where f: "f a err s1 = (t, s2)" by (cases "f a err s1")
  show ?thesis
  proof (cases t)
    case None
    with Some f show ?thesis using returned by (simp add: call_onRetry_def)
  next
    case (Some t')
    with \<open>cb = Some f\<close> f show ?thesis using threw by (simp add: call_onRetry_def)
  qed
qed


lemma run_of_success: "first \<le> M \<Longrightarrow> run_of rnd M first (Inr v) [Invoked (Inr v)]"
  unfolding run_of_def
  by (rule exI[of _ "[]"], rule exI[of _ "[Invoked (Inr v)]"]) simp

lemma run_of_exhausted: "run_of rnd M M (Inl (Some e)) [Invoked (Inl e)]"
  unfolding run_of_def
  by (rule exI[of _ "[]"], rule exI[of _ "[Invoked (Inl e)]"]) simp

lemma run_of_threw:
  "first < M \<Longrightarrow> run_of rnd M first (Inl (Some t)) [Invoked (Inl e), OnRetry first e (Some t)]"
  unfolding run_of_def
  by (rule exI[of _ "[]"], rule exI[of _ "[Invoked (Inl e), OnRetry first e (Some t)]"]) simp

lemma run_of_step:
  assumes "run_of rnd M (first + 1) res evs"
  shows "run_of rnd M first res (rnd first e @ evs)"
proof -
  from assms obtain errs ending where r:
    "evs = failed_attempts rnd (first + 1) errs @ ending"
    "first + 1 + int (length errs) \<le> M"
    "(\<exists>v. ending = [Invoked (Inr v)] \<and> res = Inr v) \<or>
     (\<exists>e. ending = [Invoked (Inl e)] \<and> first + 1 + int (length errs) = M \<and> res = Inl (Some e)) \<or>
     (\<exists>e t. ending = [Invoked (Inl e), OnRetry (first + 1 + int (length errs)) e (Some t)] \<and>
        first + 1 + int (length errs) < M \<and> res = Inl (Some t))"
    unfolding run_of_def by blast
  have len: "first + int (length (e # errs)) = first + 1 + int (length errs)" by simp
  show ?thesis
    unfolding run_of_def
    apply (rule exI[of _ "e # errs"], rule exI[of _ ending])
    unfolding len using r by simp
qed

lemma retry_loop_run:
  fixes fn :: "'s \<Rightarrow> ('e + 'a) \<times> 's"
  assumes M: "M \<le> 2 ^ 53"
  shows "a \<le> M \<Longrightarrow> nat (M - a) = n \<Longrightarrow>
    \<exists>res s' evs.
      retry_loop fn (Num (of_int M)) d b cb a le s sofar = Some (res, s', sofar @ evs) \<and>
      invocations evs \<le> nat (M + 1 - a) \<and>
      replay fn cb s evs = Some s' \<and>
      run_of (between_attempts (cb \<noteq> None) d b) M a res evs"
proof (induction n arbitrary: a le s sofar)
  case 0
  then have aM: "a = M" by simp
  obtain r s1 where fs: "fn s = (r, s1)" by (cases "fn s")
  show ?case
  proof (cases r)
    case (Inr v)
    with aM fs have "retry_loop fn (Num (of_int M)) d b cb a le s sofar
        = Some (Inr v, s1, sofar @ [Invoked (Inr v)])"
      by (subst retry_loop.simps) (simp add: attempt_le_def)
    moreover have "replay fn cb s [Invoked (Inr v)] = Some s1" using fs Inr by simp
    moreover have "run_of (between_attempts (cb \<noteq> None) d b) M a (Inr v) [Invoked (Inr v)]"
      using aM by (simp add: run_of_success)
    ultimately show ?thesis using aM by force
  next
    case (Inl e)
    with aM fs have "retry_loop fn (Num (of_int M)) d b cb a le s sofar
        = Some (Inl (Some e), s1, sofar @ [Invoked (Inl e)])"
      by (subst retry_loop.simps) (simp add: attempt_le_def attempt_eq_def)
    moreover have "replay fn cb s [Invoked (Inl e)] = Some s1" using fs Inl by simp
    moreover have "run_of (between_attempts (cb \<noteq> None) d b) M a (Inl (Some e)) [Invoked (Inl e)]"
      using aM by (simp add: run_of_exhausted)
    ultimately show ?thesis using aM by force
  qed
next
  case (Suc n)
  then have aM: "a < M" and le: "attempt_le a (Num (of_int M))"
    and neq: "\<not> attempt_eq a (Num (of_int M))"
    by (simp_all add: attempt_le_def attempt_eq_def)
  from aM M have incr: "attempt_incr a = a + 1" by (simp add: attempt_incr_def)
  obtain r s1 where fs: "fn s = (r, s1)" by (cases "fn s")
  show ?case
  proof (cases r)
    case (Inr v)
    with le fs have "retry_loop fn (Num (of_int M)) d b cb a le s sofar
        = Some (Inr v, s1, sofar @ [Invoked (Inr v)])"
      by (subst retry_loop.simps) simp
    moreover have "replay fn cb s [Invoked (Inr v)] = Some s1" using fs Inr by simp
    moreover have "run_of (between_attempts (cb \<noteq> None) d b) M a (Inr v) [Invoked (Inr v)]"
      using aM by (simp add: run_of_success)
    ultimately show ?thesis using aM by force
  next
    case (Inl e)
    show ?thesis
    proof (cases rule: call_onRetry_cases[of cb a e s1, where 'a = 'a])
      case absent
      let ?sofar = "sofar @ Invoked (Inl e) # [] @ [Waited (scheduled_delay d b a)]"
      from Suc.prems have n: "nat (M - (a + 1)) = n" by simp
      from aM have a1: "a + 1 \<le> M" by simp
      from Suc.IH[OF a1 n, of "Some e" s1 ?sofar] obtain res s' evs where ih:
        "retry_loop fn (Num (of_int M)) d b cb (a + 1) (Some e) s1 ?sofar = Some (res, s', ?sofar @ evs)"
        "invocations evs \<le> nat (M + 1 - (a + 1))"
        "replay fn cb s1 evs = Some s'"
        "run_of (between_attempts (cb \<noteq> None) d b) M (a + 1) res evs"
        by blast
      let ?evs = "[Invoked (Inl e), Waited (scheduled_delay d b a)] @ evs"
      have rnd: "between_attempts (cb \<noteq> None) d b a e
          = ([Invoked (Inl e), Waited (scheduled_delay d b a)] :: ('e, 'a) retry_event list)"
        using absent(1) by (simp add: between_attempts_def)
      from le neq fs Inl absent(2) incr ih(1)
      have "retry_loop fn (Num (of_int M)) d b cb a le s sofar = Some (res, s', sofar @ ?evs)"
        by (subst retry_loop.simps) simp
      moreover have "invocations ?evs \<le> nat (M + 1 - a)" using ih(2) aM by simp
      moreover have "replay fn cb s ?evs = Some s'" using fs Inl ih(3) by simp
      moreover have "run_of (between_attempts (cb \<noteq> None) d b) M a res ?evs"
        using run_of_step[OF ih(4), of e] unfolding rnd .
      ultimately show ?thesis by blast
    next
      case (returned f s2)
      let ?sofar = "sofar @ Invoked (Inl e) # [OnRetry a e None] @ [Waited (scheduled_delay d b a)]"
      from Suc.prems have n: "nat (M - (a + 1)) = n" by simp
      from aM have a1: "a + 1 \<le> M" by simp
      from Suc.IH[OF a1 n, of "Some e" s2 ?sofar] obtain res s' evs where ih:
        "retry_loop fn (Num (of_int M)) d b cb (a + 1) (Some e) s2 ?sofar = Some (res, s', ?sofar @ evs)"
        "invocations evs \<le> nat (M + 1 - (a + 1))"
        "replay fn cb s2 evs = Some s'"
        "run_of (between_attempts (cb \<noteq> None) d b) M (a + 1) res evs"
        by blast
      let ?evs = "[Invoked (Inl e), OnRetry a e None, Waited (scheduled_delay d b a)] @ evs"
      have rnd: "between_attempts (cb \<noteq> None) d b a e
          = ([Invoked (Inl e), OnRetry a e None, Waited (scheduled_delay d b a)]
              :: ('e, 'a) retry_event list)"
        using returned(1) by (simp add: between_attempts_def)
      from le neq fs Inl returned(3) incr ih(1)
      have "retry_loop fn (Num (of_int M)) d b cb a le s sofar = Some (res, s', sofar @ ?evs)"
        by (subst retry_loop.simps) simp
      moreover have "invocations ?evs \<le> nat (M + 1 - a)" using ih(2) aM by simp
      moreover have "replay fn cb s ?evs = Some s'"
        using fs Inl ih(3) returned(1,2) by simp
      moreover have "run_of (between_attempts (cb \<noteq> None) d b) M a res ?evs"
        using run_of_step[OF ih(4), of e] unfolding rnd .
      ultimately show ?thesis by blast
    next
      case (threw f t s2)
      let ?evs = "[Invoked (Inl e), OnRetry a e (Some t)] :: ('e, 'a) retry_event list"
      from le neq fs Inl threw(3)
      have "retry_loop fn (Num (of_int M)) d b cb a le s sofar
          = Some (Inl (Some t), s2, sofar @ ?evs)"
        by (subst retry_loop.simps) simp
      moreover have "invocations ?evs \<le> nat (M + 1 - a)" using aM by simp
      moreover have "replay fn cb s ?evs = Some s2" using fs Inl threw(1,2) by simp
      moreover have "run_of (between_attempts (cb \<noteq> None) d b) M a (Inl (Some t)) ?evs"
        using aM by (rule run_of_threw)
      ultimately show ?thesis by blast
    qed
  qed
qed

lemma small_delay: "scheduled_delay (Num 1000) True 1 = Num 1000"
  "scheduled_delay (Num 1000) True 2 = Num 2000"
  by (simp_all add: scheduled_delay_def times_pow2_def rounded_def)

lemmas retry_eval = retry_def maxAttempts_of_def delay_of_def backoff_of_def
  retry_loop.simps call_onRetry_def attempt_le_def attempt_eq_def attempt_incr_def small_delay

lemma retry_flaky_twice:
  "retry flaky_twice three_attempts (0, []) =
     Some (Inr 2, (3, [1, 2]),
      [Invoked (Inl (Error ''fetch failed'')), OnRetry 1 (Error ''fetch failed'') None,
       Waited (Num 1000),
       Invoked (Inl (Error ''fetch failed'')), OnRetry 2 (Error ''fetch failed'') None,
       Waited (Num 2000),
       Invoked (Inr 2)])"
  by (simp add: retry_eval three_attempts_def flaky_twice_def noting_onRetry_def)

lemma retry_always_down:
  "retry always_down three_attempts (0, []) =
     Some (Inl (Some (Error ''down !!'')), (3, [1, 2]),
      [Invoked (Inl (Error ''down '')), OnRetry 1 (Error ''down '') None, Waited (Num 1000),
       Invoked (Inl (Error ''down !'')), OnRetry 2 (Error ''down !'') None, Waited (Num 2000),
       Invoked (Inl (Error ''down !!''))])"
  by (simp add: retry_eval three_attempts_def always_down_def noting_onRetry_def eval_nat_numeral)

lemma retry_two_and_a_half:
  "retry always_down two_and_a_half_attempts (0, []) =
     Some (Inl (Some (Error ''down !'')), (2, [1, 2]),
      [Invoked (Inl (Error ''down '')), OnRetry 1 (Error ''down '') None, Waited (Num 1000),
       Invoked (Inl (Error ''down !'')), OnRetry 2 (Error ''down !'') None, Waited (Num 2000)])"
  by (simp add: retry_eval two_and_a_half_attempts_def always_down_def noting_onRetry_def
      eval_nat_numeral)

lemma retry_failing_callback:
  "retry always_down three_attempts_failing_callback (0, []) =
     Some (Inl (Some (Error ''callback failed'')), (1, [1]),
      [Invoked (Inl (Error ''down '')),
       OnRetry 1 (Error ''down '') (Some (Error ''callback failed''))])"
  by (simp add: retry_eval three_attempts_failing_callback_def always_down_def failing_onRetry_def)

lemma retry_loop_never_returns:
  assumes "retry_loop fn m d b cb a le s sofar = Some y"
  shows "(\<forall>st. isl (fst (fn st))) \<longrightarrow> cb = None \<longrightarrow>
         (\<forall>k. k \<le> 2 ^ 53 \<longrightarrow> attempt_le k m \<and> \<not> attempt_eq k m) \<longrightarrow> a \<le> 2 ^ 53 \<longrightarrow> False"
proof (rule retry_loop.raw_induct[where P = "\<lambda>fn m d b cb a le s sofar y.
         (\<forall>st. isl (fst (fn st))) \<longrightarrow> cb = None \<longrightarrow>
         (\<forall>k. k \<le> 2 ^ 53 \<longrightarrow> attempt_le k m \<and> \<not> attempt_eq k m) \<longrightarrow> a \<le> 2 ^ 53 \<longrightarrow> False",
       OF _ assms])
  fix loop fn m d b cb a le s sofar y
  assume IH: "\<And>fn m d b cb a le s sofar y. loop fn m d b cb a le s sofar = Some y \<Longrightarrow>
         (\<forall>st. isl (fst (fn st))) \<longrightarrow> cb = None \<longrightarrow>
         (\<forall>k. k \<le> 2 ^ 53 \<longrightarrow> attempt_le k m \<and> \<not> attempt_eq k m) \<longrightarrow> a \<le> 2 ^ 53 \<longrightarrow> False"
    and body: "(if attempt_le a m
      then case fn s of
           (Inl err, s1) \<Rightarrow>
             if attempt_eq a m
             then Some (Inl (Some err), s1, sofar @ [Invoked (Inl err)])
             else (case call_onRetry cb a err s1 of
                  (None, s2, evs) \<Rightarrow>
                    let currentDelay = scheduled_delay d b a
                    in loop fn m d b cb (attempt_incr a) (Some err) s2
                        (sofar @ Invoked (Inl err) # evs @ [Waited currentDelay])
                  | (Some thrown, s2, evs) \<Rightarrow>
                      Some (Inl (Some thrown), s2, sofar @ Invoked (Inl err) # evs))
           | (Inr result, s1) \<Rightarrow> Some (Inr result, s1, sofar @ [Invoked (Inr result)])
      else Some (Inl le, s, sofar)) = Some y"
  show "(\<forall>st. isl (fst (fn st))) \<longrightarrow> cb = None \<longrightarrow>
         (\<forall>k. k \<le> 2 ^ 53 \<longrightarrow> attempt_le k m \<and> \<not> attempt_eq k m) \<longrightarrow> a \<le> 2 ^ 53 \<longrightarrow> False"
  proof (intro impI)
    assume fails: "\<forall>st. isl (fst (fn st))" and cb: "cb = None"
      and m: "\<forall>k. k \<le> 2 ^ 53 \<longrightarrow> attempt_le k m \<and> \<not> attempt_eq k m" and a: "a \<le> 2 ^ 53"
    from fails have "isl (fst (fn s))" by blast
    then obtain err s1 where fs: "fn s = (Inl err, s1)"
      by (cases "fn s"; cases "fst (fn s)") auto
    from a have a': "attempt_incr a \<le> 2 ^ 53" by (simp add: attempt_incr_def)
    from m a have "attempt_le a m" "\<not> attempt_eq a m" by simp_all
    with body fs cb
    have "loop fn m d b cb (attempt_incr a) (Some err) s1
        (sofar @ Invoked (Inl err) # [] @ [Waited (scheduled_delay d b a)]) = Some y"
      by (simp add: call_onRetry_def)
    from IH[OF this] fails cb m a' show False by blast
  qed
qed

lemma retry_huge_diverges: "retry always_down huge_attempts (0, []) = None"
proof (cases "retry always_down huge_attempts (0, [])")
  case None
  then show ?thesis .
next
  case (Some y)
  then have r: "retry_loop always_down (Num (2 ^ 53 + 2)) (Num 1000) True None 1 None (0, []) []
      = Some y"
    by (simp add: retry_def huge_attempts_def maxAttempts_of_def delay_of_def backoff_of_def)
  have fails: "\<forall>st. isl (fst (always_down st))"
    by (simp add: always_down_def split: prod.splits)
  have m: "\<forall>k::int. k \<le> 2 ^ 53 \<longrightarrow>
      attempt_le k (Num (2 ^ 53 + 2)) \<and> \<not> attempt_eq k (Num (2 ^ 53 + 2))"
  proof (intro allI impI)
    fix k :: int assume k: "k \<le> 2 ^ 53"
    have "(of_int k :: rat) \<le> of_int (2 ^ 53)" using k by (simp only: of_int_le_iff)
    then have "(of_int k :: rat) \<le> 2 ^ 53" by simp
    then show "attempt_le k (Num (2 ^ 53 + 2)) \<and> \<not> attempt_eq k (Num (2 ^ 53 + 2))"
      by (simp add: attempt_le_def attempt_eq_def)
  qed
  have one: "(1::int) \<le> 2 ^ 53" by simp
  from retry_loop_never_returns[OF r] fails m one have False by blast
  then show ?thesis ..
qed


lemma scheduled_delay_fixed: "scheduled_delay d False k = d"
  by (simp add: scheduled_delay_def)

lemma scheduled_delay_exponential:
  assumes "1 \<le> k" "k \<le> 1024" "\<bar>q\<bar> * 2 ^ nat (k - 1) < 2 ^ 1024"
  shows "scheduled_delay (Num q) True k = Num (q * 2 ^ nat (k - 1))"
proof -
  have "\<bar>q * 2 ^ nat (k - 1)\<bar> = \<bar>q\<bar> * 2 ^ nat (k - 1)" by (simp add: abs_mult)
  with assms(3) have "\<not> 2 ^ 1024 \<le> \<bar>q * 2 ^ nat (k - 1)\<bar>" by simp
  then have "rounded (q * 2 ^ nat (k - 1)) = Num (q * 2 ^ nat (k - 1))"
    unfolding rounded_def by (simp only: if_False)
  with assms(2) show ?thesis by (simp add: scheduled_delay_def times_pow2_def)
qed

lemma scheduled_delay_overflow:
  "1025 \<le> k \<Longrightarrow>
   scheduled_delay (Num q) True k
     = (if q = 0 then NaN else if 0 < q then PlusInfinity else MinusInfinity)"
  by (simp add: scheduled_delay_def times_pow2_def)

text \<open>
  C3, as amended. For every operation and every integer \<open>maxAttempts\<close> from 1 to \<open>2^53\<close>:
  \<^verbatim>\<open>retry\<close> settles, having invoked the operation at most \<open>maxAttempts\<close> times, each time
  on the state its previous effects left. Its trace is a run of failed attempts numbered
  from 1, each followed by \<^verbatim>\<open>onRetry(attempt, error)\<close> (when supplied) and then the wait of
  the scheduled delay, and closed by one last attempt with no wait after it: either it
  resolves and \<^verbatim>\<open>retry\<close> returns its result (the first success ends the run), or it is
  attempt number \<open>maxAttempts\<close>, it rejects and \<^verbatim>\<open>retry\<close> throws its error with \<^verbatim>\<open>onRetry\<close> not
  called, or it is an earlier attempt after which \<^verbatim>\<open>onRetry\<close> throws, and \<^verbatim>\<open>retry\<close> throws
  that error at once. The scheduled delay is \<open>delay\<close> without backoff and
  \<open>delay * 2^(attempt - 1)\<close> with it, as long as that is a finite double.
\<close>

theorem retry_attempts:
  fixes fn :: "'s \<Rightarrow> ('e + 'a) \<times> 's"
  shows "1 \<le> M \<Longrightarrow> M \<le> 2 ^ 53 \<Longrightarrow> maxAttempts_of options = Num (of_int M) \<Longrightarrow>
    (\<exists>res s' evs.
       retry fn options s = Some (res, s', evs) \<and>
       invocations evs \<le> nat M \<and>
       replay fn (onRetry options) s evs = Some s' \<and>
       run_of (between_attempts (onRetry options \<noteq> None) (delay_of options) (backoff_of options))
         M 1 res evs)
    \<and> (\<forall>d k. scheduled_delay d False k = d)
    \<and> (\<forall>q k. 1 \<le> k \<and> k \<le> 1024 \<and> \<bar>q\<bar> * 2 ^ nat (k - 1) < 2 ^ 1024 \<longrightarrow>
          scheduled_delay (Num q) True k = Num (q * 2 ^ nat (k - 1)))"
proof (intro conjI allI impI)
  assume M: "1 \<le> M" "M \<le> 2 ^ 53" and m: "maxAttempts_of options = Num (of_int M)"
  from retry_loop_run[OF M(2) M(1) refl, of fn "delay_of options" "backoff_of options"
      "onRetry options" None s "[]"]
  show "\<exists>res s' evs.
       retry fn options s = Some (res, s', evs) \<and>
       invocations evs \<le> nat M \<and>
       replay fn (onRetry options) s evs = Some s' \<and>
       run_of (between_attempts (onRetry options \<noteq> None) (delay_of options) (backoff_of options))
         M 1 res evs"
    by (simp add: retry_def m)
next
  fix d :: js_number and k :: int
  show "scheduled_delay d False k = d" by (rule scheduled_delay_fixed)
next
  fix q :: rat and k :: int
  assume "1 \<le> k \<and> k \<le> 1024 \<and> \<bar>q\<bar> * 2 ^ nat (k - 1) < 2 ^ 1024"
  then show "scheduled_delay (Num q) True k = Num (q * 2 ^ nat (k - 1))"
    by (simp add: scheduled_delay_exponential)
qed

text \<open>
  Three attempts with the default delay and a callback that notes its calls in the state:
  an operation that fails twice and then resolves, and one that always fails.
\<close>

theorem retry_attempts_witness:
  "(\<exists>res s' evs.
       retry flaky_twice three_attempts (0, []) = Some (res, s', evs) \<and>
       invocations evs \<le> 3 \<and>
       replay flaky_twice (Some noting_onRetry) (0, []) evs = Some s' \<and>
       run_of (between_attempts True (Num 1000) True) 3 1 res evs)
   \<and> retry flaky_twice three_attempts (0, []) =
       Some (Inr 2, (3, [1, 2]),
        [Invoked (Inl (Error ''fetch failed'')), OnRetry 1 (Error ''fetch failed'') None,
         Waited (Num 1000),
         Invoked (Inl (Error ''fetch failed'')), OnRetry 2 (Error ''fetch failed'') None,
         Waited (Num 2000),
         Invoked (Inr 2)])
   \<and> retry always_down three_attempts (0, []) =
       Some (Inl (Some (Error ''down !!'')), (3, [1, 2]),
        [Invoked (Inl (Error ''down '')), OnRetry 1 (Error ''down '') None, Waited (Num 1000),
         Invoked (Inl (Error ''down !'')), OnRetry 2 (Error ''down !'') None, Waited (Num 2000),
         Invoked (Inl (Error ''down !!''))])
   \<and> scheduled_delay (Num 1000) True 3 = Num 4000
   \<and> scheduled_delay (Num 1000) False 3 = Num 1000"
proof -
  have m: "maxAttempts_of three_attempts = Num (of_int 3)" "delay_of three_attempts = Num 1000"
    "backoff_of three_attempts = True" "onRetry three_attempts = Some noting_onRetry"
    by (simp_all add: three_attempts_def maxAttempts_of_def delay_of_def backoff_of_def)
  have b: "(1::int) \<le> 3" "(3::int) \<le> 2 ^ 53" by simp_all
  note inst = retry_attempts[OF b m(1), of flaky_twice "(0, [])"]
  from inst have c1: "\<exists>res s' evs.
       retry flaky_twice three_attempts (0, []) = Some (res, s', evs) \<and>
       invocations evs \<le> 3 \<and>
       replay flaky_twice (Some noting_onRetry) (0, []) evs = Some s' \<and>
       run_of (between_attempts True (Num 1000) True) 3 1 res evs"
    by (simp add: m)
  have small: "(1::int) \<le> 3 \<and> (3::int) \<le> 1024 \<and> \<bar>1000::rat\<bar> * 2 ^ nat (3 - 1) < 2 ^ 1024"
    by simp
  from inst[THEN conjunct2, THEN conjunct2, rule_format, OF small]
  have c2: "scheduled_delay (Num 1000) True 3 = Num (1000 * 2 ^ nat (3 - 1))" .
  from inst[THEN conjunct2, THEN conjunct1, rule_format, of "Num 1000" 3]
  have c3: "scheduled_delay (Num 1000) False 3 = Num 1000" .
  from c1 c2 c3 show ?thesis
    by (simp add: retry_flaky_twice retry_always_down)
qed

text \<open>
  C3 as stated fails. With \<open>maxAttempts = 2.5\<close> the second attempt is the last, and after it
  \<^verbatim>\<open>onRetry(2, error)\<close> is still called and the delay waited before the error is thrown.
  A callback that throws ends \<^verbatim>\<open>retry\<close> with the callback's error and without the wait.
  With \<open>maxAttempts = 2^53 + 2\<close> and an operation that always fails the counter never
  reaches the limit and \<^verbatim>\<open>retry\<close> never settles.
\<close>

theorem retry_attempts_counterexample:
  "retry always_down two_and_a_half_attempts (0, []) =
     Some (Inl (Some (Error ''down !'')), (2, [1, 2]),
      [Invoked (Inl (Error ''down '')), OnRetry 1 (Error ''down '') None, Waited (Num 1000),
       Invoked (Inl (Error ''down !'')), OnRetry 2 (Error ''down !'') None, Waited (Num 2000)])
   \<and> retry always_down three_attempts_failing_callback (0, []) =
     Some (Inl (Some (Error ''callback failed'')), (1, [1]),
      [Invoked (Inl (Error ''down '')),
       OnRetry 1 (Error ''down '') (Some (Error ''callback failed''))])
   \<and> retry always_down huge_attempts (0, []) = None"
  by (simp add: retry_two_and_a_half retry_failing_callback retry_huge_diverges)

text \<open>
  C10. With \<open>maxAttempts \<le> 0\<close> (any non-positive number, \<^verbatim>\<open>-Infinity\<close> included) the loop body
  is never entered: \<^verbatim>\<open>retry\<close> does not invoke the operation (empty trace, state
  unchanged) and throws the never-assigned \<^verbatim>\<open>lastError\<close>, that is \<^verbatim>\<open>undefined\<close> (\<open>None\<close>),
  not an error object.
\<close>

theorem retry_without_attempts:
  "maxAttempts_of options = Num q \<and> q \<le> 0 \<or> maxAttempts_of options = MinusInfinity \<Longrightarrow>
   retry fn options s = Some (Inl None, s, [])"
proof -
  assume "maxAttempts_of options = Num q \<and> q \<le> 0 \<or> maxAttempts_of options = MinusInfinity"
  then have "\<not> attempt_le 1 (maxAttempts_of options)"
    by (auto simp: attempt_le_def)
  then show ?thesis
    unfolding retry_def by (subst retry_loop.simps) simp
qed

theorem retry_without_attempts_witness:
  "maxAttempts_of no_attempts = Num 0
   \<and> retry always_down no_attempts (7, []) = Some (Inl None, (7, []), [])"
  using retry_without_attempts[of no_attempts 0 always_down "(7, [])"]
  by (simp add: no_attempts_def maxAttempts_of_def)

section \<open>Properties of fetchWithFallback\<close>

text \<open>
  C7, as amended. For every url and every non-empty \<^verbatim>\<open>fallbackKey\<close>: when the call succeeds,
  the parsed payload is stored in the fallback cache under that key and returned; when it
  fails (the fetch rejects, the status is not a success, or the body does not parse) and
  the cache has an entry for the key, the cached payload is returned and nothing is
  thrown. When the call fails and no key, an empty key, or a key without an entry was
  supplied, the error is re-thrown and the cache is unchanged; a success with no key or an
  empty key stores nothing.
\<close>

theorem fetchWithFallback_nonempty_key:
  "(key \<noteq> [] \<and> fetch_json fetch url options = Inr data \<longrightarrow>
      fetchWithFallback fetch url options (Some key) cache = (Inr data, cache(key \<mapsto> data)))
   \<and> (key \<noteq> [] \<and> fetch_json fetch url options = Inl err \<and> cache key = Some cached \<longrightarrow>
      fetchWithFallback fetch url options (Some key) cache = (Inr cached, cache))
   \<and> (fetch_json fetch url options = Inl err \<and>
        (fallbackKey = None \<or> fallbackKey = Some [] \<or> fallbackKey = Some key \<and> cache key = None) \<longrightarrow>
      fetchWithFallback fetch url options fallbackKey cache = (Inl err, cache))
   \<and> (fetch_json fetch url options = Inr data \<and> (fallbackKey = None \<or> fallbackKey = Some []) \<longrightarrow>
      fetchWithFallback fetch url options fallbackKey cache = (Inr data, cache))
   \<and> (fetch url options = Inl err \<longrightarrow> fetch_json fetch url options = Inl err)
   \<and> (fetch url options = Inr response \<and> \<not> ok response \<longrightarrow>
        fetch_json fetch url options
          = Inl (Error (''HTTP '' @ show_nat (status response) @ '': '' @ statusText response)))"
  by (auto simp: fetchWithFallback_def fetch_json_def)

text \<open>
  C7 as stated fails for the empty string: supplied as \<^verbatim>\<open>fallbackKey\<close>, it is falsy in
  \<^verbatim>\<open>if (fallbackKey)\<close>, so a successful call stores nothing under it.
\<close>

theorem fetchWithFallback_empty_key_counterexample:
  "fetch_json fetch_ok ''https://x/data'' () = Inr 7
   \<and> fetchWithFallback fetch_ok ''https://x/data'' () (Some []) no_entries = (Inr 7, no_entries)
   \<and> snd (fetchWithFallback fetch_ok ''https://x/data'' () (Some []) no_entries) [] = None"
  by (simp add: fetchWithFallback_def fetch_json_def fetch_ok_def no_entries_def)

text \<open>
  The scenario of the specification: a first successful call caches the payload under
  \<open>k\<close>; a later call that fails (network error, or status 503) returns the cached payload;
  without an entry, or without a key, the error is re-thrown.
\<close>

theorem fetchWithFallback_nonempty_key_witness:
  "fetchWithFallback fetch_ok ''https://x/data'' () (Some ''k'') no_entries
     = (Inr 7, no_entries(''k'' \<mapsto> 7))
   \<and> fetchWithFallback fetch_down ''https://x/data'' () (Some ''k'') (no_entries(''k'' \<mapsto> 7))
     = (Inr 7, no_entries(''k'' \<mapsto> 7))
   \<and> fetchWithFallback fetch_503 ''https://x/data'' () (Some ''k'') (no_entries(''k'' \<mapsto> 7))
     = (Inr 7, no_entries(''k'' \<mapsto> 7))
   \<and> fetchWithFallback fetch_503 ''https://x/data'' () (Some ''k'') no_entries
     = (Inl (Error ''HTTP 503: Service Unavailable''), no_entries)
   \<and> fetchWithFallback fetch_down ''https://x/data'' () None (no_entries(''k'' \<mapsto> 7))
     = (Inl (Error ''fetch failed''), no_entries(''k'' \<mapsto> 7))"
proof -
  have ok: "fetch_json fetch_ok ''https://x/data'' () = Inr 7"
    by (simp add: fetch_json_def fetch_ok_def)
  have down: "fetch_json fetch_down ''https://x/data'' () = Inl (Error ''fetch failed'')"
    by (simp add: fetch_json_def fetch_down_def)
  have e503: "fetch_json fetch_503 ''https://x/data'' () = Inl (Error ''HTTP 503: Service Unavailable'')"
    by (simp add: fetch_json_def fetch_503_def show_nat.simps)
  have k: "''k'' \<noteq> []" by simp
  have c1: "fetchWithFallback fetch_ok ''https://x/data'' () (Some ''k'') no_entries
     = (Inr 7, no_entries(''k'' \<mapsto> 7))"
    using fetchWithFallback_nonempty_key[of "''k''" fetch_ok "''https://x/data''" "()" 7 no_entries]
      ok k by blast
  have c2: "fetchWithFallback fetch_down ''https://x/data'' () (Some ''k'') (no_entries(''k'' \<mapsto> 7))
     = (Inr 7, no_entries(''k'' \<mapsto> 7))"
    using fetchWithFallback_nonempty_key[of "''k''" fetch_down "''https://x/data''" "()" _
        "no_entries(''k'' \<mapsto> 7)" "Error ''fetch failed''" 7] down k by simp
  have c3: "fetchWithFallback fetch_503 ''https://x/data'' () (Some ''k'') (no_entries(''k'' \<mapsto> 7))
     = (Inr 7, no_entries(''k'' \<mapsto> 7))"
    using fetchWithFallback_nonempty_key[of "''k''" fetch_503 "''https://x/data''" "()" _
        "no_entries(''k'' \<mapsto> 7)" "Error ''HTTP 503: Service Unavailable''" 7] e503 k by simp
  have c4: "fetchWithFallback fetch_503 ''https://x/data'' () (Some ''k'') no_entries
     = (Inl (Error ''HTTP 503: Service Unavailable''), no_entries)"
    using fetchWithFallback_nonempty_key[of "''k''" fetch_503 "''https://x/data''" "()" _
        no_entries "Error ''HTTP 503: Service Unavailable''" _ "Some ''k''"] e503
    by (simp add: no_entries_def)
  have c5: "fetchWithFallback fetch_down ''https://x/data'' () None (no_entries(''k'' \<mapsto> 7))
     = (Inl (Error ''fetch failed''), no_entries(''k'' \<mapsto> 7))"
    using fetchWithFallback_nonempty_key[of "''k''" fetch_down "''https://x/data''" "()" _
        "no_entries(''k'' \<mapsto> 7)" "Error ''fetch failed''" _ None] down
    by simp
  from c1 c2 c3 c4 c5 show ?thesis by blast
qed

section \<open>Properties of the rate limiter\<close>

lemma checkRateLimits_within_window:
  "store ip = Some r \<Longrightarrow> list_all (\<lambda>t. t \<le> resetTime r) ts \<Longrightarrow>
   fst (checkRateLimits ip ts store) = map (\<lambda>i. count r + int i < 10) [0..<length ts]"
proof (induction ts arbitrary: store r)
  case Nil
  then show ?case by simp
next
  case (Cons t ts)
  from Cons.prems have t: "\<not> t > resetTime r" and rest: "list_all (\<lambda>t. t \<le> resetTime r) ts"
    by simp_all
  have upt: "[0..<length (t # ts)] = 0 # map Suc [0..<length ts]"
    by (simp add: upt_conv_Cons map_Suc_upt del: upt_Suc)
  show ?case
  proof (cases "count r \<ge> 10")
    case True
    with Cons.prems(1) t have step: "checkRateLimit t ip store = (False, store)"
      by (simp add: checkRateLimit_def)
    obtain ds st2 where rec: "checkRateLimits ip ts store = (ds, st2)"
      by (cases "checkRateLimits ip ts store")
    have "fst (checkRateLimits ip ts store) = map (\<lambda>i. count r + int i < 10) [0..<length ts]"
      by (rule Cons.IH[where r = r]) (use Cons.prems(1) rest in simp_all)
    with rec have ds: "ds = map (\<lambda>i. count r + int i < 10) [0..<length ts]" by simp
    from step rec have "fst (checkRateLimits ip (t # ts) store) = False # ds" by simp
    with ds True show ?thesis
      unfolding upt by (simp add: comp_def)
  next
    case False
    let ?r' = "r\<lparr>count := count r + 1\<rparr>"
    from False Cons.prems(1) t have step: "checkRateLimit t ip store = (True, store(ip \<mapsto> ?r'))"
      by (simp add: checkRateLimit_def)
    have s': "(store(ip \<mapsto> ?r')) ip = Some ?r'" by simp
    from rest have rest': "list_all (\<lambda>t. t \<le> resetTime ?r') ts" by simp
    obtain ds st2 where rec: "checkRateLimits ip ts (store(ip \<mapsto> ?r')) = (ds, st2)"
      by (cases "checkRateLimits ip ts (store(ip \<mapsto> ?r'))")
    have "fst (checkRateLimits ip ts (store(ip \<mapsto> ?r')))
        = map (\<lambda>i. count ?r' + int i < 10) [0..<length ts]"
      by (rule Cons.IH[where r = ?r']) (use rest' in simp_all)
    with rec have ds: "ds = map (\<lambda>i. count ?r' + int i < 10) [0..<length ts]" by simp
    from step rec have "fst (checkRateLimits ip (t # ts) store) = True # ds" by simp
    with ds False show ?thesis
      unfolding upt by (simp add: comp_def add.assoc)
  qed
qed

text \<open>
  C2. With the window of 60 seconds and the limit of 10, for every client key: a request
  with no record for the key, or arriving after the record's \<open>resetTime\<close>, is admitted and
  installs the record \<open>count = 1\<close>, \<open>resetTime = now + 60000\<close>; a request whose record has
  not expired and has \<open>count \<ge> 10\<close> is refused, and the handler answers 429 ("Rate limit
  exceeded"); any other request is admitted and increments \<open>count\<close>. So when a request at
  \<open>start\<close> opens a window, it and the next nine requests of the key made no later than
  \<open>start + 60000\<close> are admitted and the eleventh is refused.
\<close>

theorem rate_limiter_fixed_window:
  "((store ip = None \<or> (\<exists>r. store ip = Some r \<and> now > resetTime r)) \<longrightarrow>
      checkRateLimit now ip store
        = (True, store(ip \<mapsto> \<lparr>count = 1, resetTime = now + 60000\<rparr>)))
   \<and> (\<forall>r. store ip = Some r \<and> now \<le> resetTime r \<and> count r \<ge> 10 \<longrightarrow>
        checkRateLimit now ip store = (False, store))
   \<and> (\<forall>r. rateLimitStore srv (client_ip req) = Some r \<and> now \<le> resetTime r \<and> count r \<ge> 10 \<longrightarrow>
        POST is_url stringify now now' req srv
          = (NextResponse
               (JObject [(''success'', JBool False), (''error'', JString ''Rate limit exceeded'')])
               429, srv))
   \<and> (\<forall>r. store ip = Some r \<and> now \<le> resetTime r \<and> count r < 10 \<longrightarrow>
        checkRateLimit now ip store = (True, store(ip \<mapsto> r\<lparr>count := count r + 1\<rparr>)))
   \<and> ((store ip = None \<or> (\<exists>r. store ip = Some r \<and> start > resetTime r)) \<and>
        length ts = 10 \<and> list_all (\<lambda>t. t \<le> start + 60000) ts \<longrightarrow>
        fst (checkRateLimits ip (start # ts) store) = replicate 10 True @ [False])"
proof (intro conjI allI impI)
  assume "store ip = None \<or> (\<exists>r. store ip = Some r \<and> now > resetTime r)"
  then show "checkRateLimit now ip store
        = (True, store(ip \<mapsto> \<lparr>count = 1, resetTime = now + 60000\<rparr>))"
    by (auto simp: checkRateLimit_def)
next
  fix r assume "store ip = Some r \<and> now \<le> resetTime r \<and> count r \<ge> 10"
  then show "checkRateLimit now ip store = (False, store)"
    by (auto simp: checkRateLimit_def)
next
  fix r assume "rateLimitStore srv (client_ip req) = Some r \<and> now \<le> resetTime r \<and> count r \<ge> 10"
  then have "checkRateLimit now (client_ip req) (rateLimitStore srv) = (False, rateLimitStore srv)"
    by (auto simp: checkRateLimit_def)
  then show "POST is_url stringify now now' req srv
          = (NextResponse
               (JObject [(''success'', JBool False), (''error'', JString ''Rate limit exceeded'')])
               429, srv)"
    by (simp add: POST_def POST_try_def)
next
  fix r assume "store ip = Some r \<and> now \<le> resetTime r \<and> count r < 10"
  then show "checkRateLimit now ip store = (True, store(ip \<mapsto> r\<lparr>count := count r + 1\<rparr>))"
    by (auto simp: checkRateLimit_def)
next
  assume a: "(store ip = None \<or> (\<exists>r. store ip = Some r \<and> start > resetTime r)) \<and>
        length ts = 10 \<and> list_all (\<lambda>t. t \<le> start + 60000) ts"
  let ?r = "\<lparr>count = 1, resetTime = start + 60000\<rparr>"
  from a have first: "checkRateLimit start ip store = (True, store(ip \<mapsto> ?r))"
    by (auto simp: checkRateLimit_def)
  have s: "(store(ip \<mapsto> ?r)) ip = Some ?r" by simp
  from a have w: "list_all (\<lambda>t. t \<le> resetTime ?r) ts" by simp
  have ten: "[0..<10] = [0, 1, 2, 3, 4, 5, 6, 7, 8, Suc 8]"
    by (simp add: upt_rec)
  have "fst (checkRateLimits ip ts (store(ip \<mapsto> ?r)))
      = map (\<lambda>i. count ?r + int i < 10) [0..<length ts]"
    by (rule checkRateLimits_within_window[where r = ?r]) (use w in simp_all)
  with a have tail: "fst (checkRateLimits ip ts (store(ip \<mapsto> ?r))) = replicate 9 True @ [False]"
    by (simp add: ten eval_nat_numeral)
  obtain ds st2 where rec: "checkRateLimits ip ts (store(ip \<mapsto> ?r)) = (ds, st2)"
    by (cases "checkRateLimits ip ts (store(ip \<mapsto> ?r))")
  from rec tail have "ds = replicate 9 True @ [False]" by simp
  with first rec show "fst (checkRateLimits ip (start # ts) store) = replicate 10 True @ [False]"
    by (simp add: eval_nat_numeral)
qed


text \<open>
  One client against an empty store: the first request opens a window; a record at the
  limit refuses a request at its \<open>resetTime\<close> (answer 429) and is replaced by a request after
  it; a record below the limit is incremented; of eleven requests within the window the
  first ten are admitted and the last is refused.
\<close>

theorem rate_limiter_fixed_window_witness:
  "checkRateLimit 5 ''10.0.0.1'' no_records
     = (True, no_records(''10.0.0.1'' \<mapsto> \<lparr>count = 1, resetTime = 60005\<rparr>))
   \<and> checkRateLimit 60006 ''10.0.0.1'' (no_records(''10.0.0.1'' \<mapsto> \<lparr>count = 10, resetTime = 60005\<rparr>))
     = (True, (no_records(''10.0.0.1'' \<mapsto> \<lparr>count = 10, resetTime = 60005\<rparr>))
               (''10.0.0.1'' \<mapsto> \<lparr>count = 1, resetTime = 120006\<rparr>))
   \<and> checkRateLimit 60005 ''10.0.0.1'' (no_records(''10.0.0.1'' \<mapsto> \<lparr>count = 10, resetTime = 60005\<rparr>))
     = (False, no_records(''10.0.0.1'' \<mapsto> \<lparr>count = 10, resetTime = 60005\<rparr>))
   \<and> response_status (fst (POST sample_is_url sample_stringify 60005 60005
        (request_from ''10.0.0.1'' (report_with_message ''boom''))
        (fresh_server\<lparr>rateLimitStore := no_records(''10.0.0.1'' \<mapsto> \<lparr>count = 10, resetTime = 60005\<rparr>)\<rparr>)))
     = 429
   \<and> checkRateLimit 100 ''10.0.0.1'' (no_records(''10.0.0.1'' \<mapsto> \<lparr>count = 3, resetTime = 60005\<rparr>))
     = (True, (no_records(''10.0.0.1'' \<mapsto> \<lparr>count = 3, resetTime = 60005\<rparr>))
               (''10.0.0.1'' \<mapsto> \<lparr>count = 4, resetTime = 60005\<rparr>))
   \<and> fst (checkRateLimits ''10.0.0.1'' [5, 6, 7, 8, 9, 10, 11, 12, 13, 60005, 60005] no_records)
     = [True, True, True, True, True, True, True, True, True, True, False]"
proof -
  let ?ip = "''10.0.0.1''"
  let ?full = "no_records(?ip \<mapsto> \<lparr>count = 10, resetTime = 60005\<rparr>)"
  let ?some = "no_records(?ip \<mapsto> \<lparr>count = 3, resetTime = 60005\<rparr>)"
  let ?req = "request_from ?ip (report_with_message ''boom'')"
  let ?srv = "fresh_server\<lparr>rateLimitStore := ?full\<rparr>"
  have c1: "checkRateLimit 5 ?ip no_records
     = (True, no_records(?ip \<mapsto> \<lparr>count = 1, resetTime = 60005\<rparr>))"
    using rate_limiter_fixed_window[where store = no_records and ip = ?ip and now = 5]
    by (simp add: no_records_def)
  have c2: "checkRateLimit 60006 ?ip ?full
     = (True, ?full(?ip \<mapsto> \<lparr>count = 1, resetTime = 120006\<rparr>))"
    using rate_limiter_fixed_window[where store = ?full and ip = ?ip and now = 60006]
    by simp
  have c3: "checkRateLimit 60005 ?ip ?full = (False, ?full)"
    using rate_limiter_fixed_window[where store = ?full and ip = ?ip and now = 60005]
    by simp
  have ip: "client_ip ?req = ?ip" by (simp add: client_ip_def request_from_def)
  have "POST sample_is_url sample_stringify 60005 60005 ?req ?srv
          = (NextResponse
               (JObject [(''success'', JBool False), (''error'', JString ''Rate limit exceeded'')])
               429, ?srv)"
    using rate_limiter_fixed_window[where srv = ?srv and req = ?req and now = 60005
        and is_url = sample_is_url and stringify = sample_stringify and now' = 60005] ip
    by simp
  then have c4: "response_status (fst (POST sample_is_url sample_stringify 60005 60005 ?req ?srv)) = 429"
    by simp
  have c5: "checkRateLimit 100 ?ip ?some
     = (True, ?some(?ip \<mapsto> \<lparr>count = 4, resetTime = 60005\<rparr>))"
    using rate_limiter_fixed_window[where store = ?some and ip = ?ip and now = 100]
    by simp
  have c6: "fst (checkRateLimits ?ip [5, 6, 7, 8, 9, 10, 11, 12, 13, 60005, 60005] no_records)
     = [True, True, True, True, True, True, True, True, True, True, False]"
  proof -
    have "fst (checkRateLimits ?ip (5 # [6, 7, 8, 9, 10, 11, 12, 13, 60005, 60005]) no_records)
        = replicate 10 True @ [False]"
      using rate_limiter_fixed_window[where store = no_records and ip = ?ip and start = 5
          and ts = "[6, 7, 8, 9, 10, 11, 12, 13, 60005, 60005]",
          THEN conjunct2, THEN conjunct2, THEN conjunct2, THEN conjunct2]
      by (simp add: no_records_def)
    moreover have "replicate 10 True @ [False]
        = [True, True, True, True, True, True, True, True, True, True, False]"
      by (simp add: eval_nat_numeral)
    ultimately show ?thesis by simp
  qed
  from c1 c2 c3 c4 c5 c6 show ?thesis by blast
qed

section \<open>Properties of the POST handler\<close>

lemma z_object_parse_object:
  "z_object_parse is_url shape j = Inr v \<Longrightarrow>
   \<exists>props. j = JObject props \<and>
     v = JObject (List.map_filter (\<lambda>(key, t). map_option (Pair key) (map_of props key)) shape)"
  by (auto simp: z_object_parse_def Let_def split: json_value.splits if_splits)

lemma persist_succeeds:
  "appendError fs = None \<Longrightarrow> logDirExists fs \<or> mkdirError fs = None \<Longrightarrow>
   persist fs line = (None, fs\<lparr>logDirExists := True, logFile := logFile fs @ line\<rparr>)"
  by (auto simp: persist_def mkdirSync_def appendFileSync_def)

lemma persist_append_fails:
  "appendError fs = Some err \<Longrightarrow> logDirExists fs \<or> mkdirError fs = None \<Longrightarrow>
   persist fs line = (Some err, fs\<lparr>logDirExists := True\<rparr>)"
  by (auto simp: persist_def mkdirSync_def appendFileSync_def)

lemma POST_admitted:
  "fst (checkRateLimit now (client_ip req) (rateLimitStore srv)) \<Longrightarrow>
   POST_try is_url stringify now now' req srv =
     (let srv1 = srv\<lparr>rateLimitStore := snd (checkRateLimit now (client_ip req) (rateLimitStore srv))\<rparr>
      in case json_body req of
           None \<Rightarrow> (Inl SyntaxError, srv1)
         | Some body \<Rightarrow>
             (case z_object_parse is_url ErrorLogSchema body of
                Inl issues \<Rightarrow> (Inl (ZodError issues), srv1)
              | Inr validatedData \<Rightarrow>
                  (case persist (files srv1)
                          (stringify (errorLog_of validatedData (client_ip req) now') @ [CHR 0x0A]) of
                     (Some err, fs1) \<Rightarrow> (Inl (FsError err), srv1\<lparr>files := fs1\<rparr>)
                   | (None, fs1) \<Rightarrow>
                       (Inr (NextResponse (JObject [(''success'', JBool True)]) 200),
                        srv1\<lparr>files := fs1\<rparr>))))"
  by (cases "checkRateLimit now (client_ip req) (rateLimitStore srv)")
     (auto simp: POST_try_def Let_def split: option.splits sum.splits)


lemma rejected_keys:
  "set (map fst (filter (\<lambda>(key, t). \<not> P key t) shape))
     = {key. \<exists>t. (key, t) \<in> set shape \<and> \<not> P key t}"
  by force

lemma z_object_parse_issues:
  assumes "z_object_parse is_url shape (JObject props) = Inl issues"
  shows "key \<in> set issues \<longleftrightarrow>
    (\<exists>t. (key, t) \<in> set shape \<and> \<not> zod_accepts is_url t (map_of props key))"
proof -
  from assms have "issues = map fst (filter (\<lambda>(key, t). \<not> zod_accepts is_url t (map_of props key)) shape)"
    by (simp add: z_object_parse_def Let_def split: if_splits)
  then show ?thesis
    using rejected_keys[of "\<lambda>key t. zod_accepts is_url t (map_of props key)" shape] by simp
qed

lemma z_object_parse_accepts:
  "z_object_parse is_url shape (JObject props) = Inr v \<Longrightarrow> (key, t) \<in> set shape \<Longrightarrow>
   zod_accepts is_url t (map_of props key)"
  by (auto simp: z_object_parse_def Let_def filter_empty_conv split: if_splits)

lemma z_object_parse_rejects:
  "(key, t) \<in> set shape \<Longrightarrow> \<not> zod_accepts is_url t (map_of props key) \<Longrightarrow>
   \<exists>issues. z_object_parse is_url shape (JObject props) = Inl issues \<and> key \<in> set issues"
proof -
  assume a: "(key, t) \<in> set shape" "\<not> zod_accepts is_url t (map_of props key)"
  define issues where
    "issues = map fst (filter (\<lambda>(key, t). \<not> zod_accepts is_url t (map_of props key)) shape)"
  from a have mem: "key \<in> set issues"
    unfolding issues_def
    using rejected_keys[of "\<lambda>key t. zod_accepts is_url t (map_of props key)" shape] by auto
  then have "issues \<noteq> []" by (cases issues) simp_all
  then have "z_object_parse is_url shape (JObject props) = Inl issues"
    unfolding issues_def by (simp add: z_object_parse_def Let_def)
  with mem show ?thesis by blast
qed

lemma message_in_schema: "(''message'', t) \<in> set ErrorLogSchema \<longleftrightarrow> t = ZString [Max 1000]"
  by (auto simp: ErrorLogSchema_def)

lemma missing_message_rejected:
  "map_of props ''message'' = None \<Longrightarrow>
   \<exists>issues. z_object_parse is_url ErrorLogSchema (JObject props) = Inl issues \<and> ''message'' \<in> set issues"
  using z_object_parse_rejects[of "''message''" "ZString [Max 1000]" ErrorLogSchema is_url props]
  by (simp add: message_in_schema)

lemma validated_message_first:
  "z_object_parse is_url ErrorLogSchema (JObject props) = Inr v \<Longrightarrow>
   map_of props ''message'' = Some x \<Longrightarrow> \<exists>fields. v = JObject ((''message'', x) # fields)"
  by (auto simp: z_object_parse_def Let_def ErrorLogSchema_def split: if_splits)


lemma POST_rejected_body:
  assumes "fst (checkRateLimit now (client_ip req) (rateLimitStore srv))"
    and "json_body req = None \<or>
         (\<exists>j issues. json_body req = Some j \<and> z_object_parse is_url ErrorLogSchema j = Inl issues)"
  shows "fst (POST is_url stringify now now' req srv)
           = NextResponse
               (JObject [(''success'', JBool False), (''error'', JString ''Invalid error log format'')])
               400"
    and "files (snd (POST is_url stringify now now' req srv)) = files srv"
  using assms(2) by (auto simp: POST_def POST_admitted[OF assms(1)] Let_def)

lemma POST_accepted_body:
  assumes "fst (checkRateLimit now (client_ip req) (rateLimitStore srv))"
    and "json_body req = Some j" and "z_object_parse is_url ErrorLogSchema j = Inr v"
    and "appendError (files srv) = None"
    and "logDirExists (files srv) \<or> mkdirError (files srv) = None"
  shows "fst (POST is_url stringify now now' req srv)
           = NextResponse (JObject [(''success'', JBool True)]) 200"
    and "logFile (files (snd (POST is_url stringify now now' req srv)))
           = logFile (files srv) @ stringify (errorLog_of v (client_ip req) now') @ [CHR 0x0A]"
  using assms(2-5)
  by (simp_all add: POST_def POST_admitted[OF assms(1)] Let_def persist_succeeds)

lemma POST_persist_throws:
  assumes "fst (checkRateLimit now (client_ip req) (rateLimitStore srv))"
    and "json_body req = Some j" and "z_object_parse is_url ErrorLogSchema j = Inr v"
    and "fst (persist (files srv) (stringify (errorLog_of v (client_ip req) now') @ [CHR 0x0A]))
           = Some err"
  shows "fst (POST is_url stringify now now' req srv)
           = NextResponse
               (JObject [(''success'', JBool False), (''error'', JString ''Invalid error log format'')])
               400"
  using assms(2-4)
  by (cases "persist (files srv) (stringify (errorLog_of v (client_ip req) now') @ [CHR 0x0A])")
     (simp add: POST_def POST_admitted[OF assms(1)] Let_def)

lemma errorLog_of_validated:
  "z_object_parse is_url ErrorLogSchema j = Inr v \<Longrightarrow>
   \<exists>fields. v = JObject fields \<and>
     errorLog_of v ip now
       = JObject (fields @ [(''ip'', JString ip), (''serverTimestamp'', JNumber (of_int now))])"
  by (auto simp: errorLog_of_def dest: z_object_parse_object)

text \<open>
  C4, as amended. For a request the rate limiter admits: a body that is not JSON or fails
  the schema (a body without \<open>message\<close> does) is answered 400 and leaves the log file and
  the rest of the file system untouched; a body that passes the schema, when the
  directory can be created and the append does not fail, extends the log file by exactly
  the serialised record (the validated payload followed by \<open>ip\<close> and \<open>serverTimestamp\<close>) and
  a newline, one line since \<^verbatim>\<open>JSON.stringify\<close> emits no newline, and is answered 200 with
  \<open>{success: true}\<close>.
\<close>

theorem POST_validates_then_appends:
  "fst (checkRateLimit now (client_ip req) (rateLimitStore srv)) \<Longrightarrow>
   ((json_body req = None \<or>
      (\<exists>j issues. json_body req = Some j \<and> z_object_parse is_url ErrorLogSchema j = Inl issues)) \<longrightarrow>
      response_status (fst (POST is_url stringify now now' req srv)) = 400 \<and>
      files (snd (POST is_url stringify now now' req srv)) = files srv)
   \<and> (\<forall>props. map_of props ''message'' = None \<longrightarrow>
         isl (z_object_parse is_url ErrorLogSchema (JObject props)))
   \<and> (\<forall>j v. json_body req = Some j \<and> z_object_parse is_url ErrorLogSchema j = Inr v \<and>
         appendError (files srv) = None \<and>
         (logDirExists (files srv) \<or> mkdirError (files srv) = None) \<longrightarrow>
         fst (POST is_url stringify now now' req srv)
           = NextResponse (JObject [(''success'', JBool True)]) 200 \<and>
         logFile (files (snd (POST is_url stringify now now' req srv)))
           = logFile (files srv) @ stringify (errorLog_of v (client_ip req) now') @ [CHR 0x0A] \<and>
         (\<exists>fields. v = JObject fields \<and>
            errorLog_of v (client_ip req) now'
              = JObject (fields @ [(''ip'', JString (client_ip req)),
                                   (''serverTimestamp'', JNumber (of_int now'))])) \<and>
         (CHR 0x0A \<notin> set (stringify (errorLog_of v (client_ip req) now')) \<longrightarrow>
            count_list (logFile (files (snd (POST is_url stringify now now' req srv)))) (CHR 0x0A)
              = count_list (logFile (files srv)) (CHR 0x0A) + 1))"
proof (intro conjI allI impI)
  assume adm: "fst (checkRateLimit now (client_ip req) (rateLimitStore srv))"
  {
    assume "json_body req = None \<or>
      (\<exists>j issues. json_body req = Some j \<and> z_object_parse is_url ErrorLogSchema j = Inl issues)"
    from POST_rejected_body[OF adm this, of stringify now']
    show "response_status (fst (POST is_url stringify now now' req srv)) = 400"
      and "files (snd (POST is_url stringify now now' req srv)) = files srv"
      by simp_all
  }
  {
    fix props :: "(string \<times> json_value) list"
    assume "map_of props ''message'' = None"
    from missing_message_rejected[OF this, of is_url]
    show "isl (z_object_parse is_url ErrorLogSchema (JObject props))" by auto
  }
  {
    fix j v
    assume a: "json_body req = Some j \<and> z_object_parse is_url ErrorLogSchema j = Inr v \<and>
         appendError (files srv) = None \<and>
         (logDirExists (files srv) \<or> mkdirError (files srv) = None)"
    then have b: "json_body req = Some j" "z_object_parse is_url ErrorLogSchema j = Inr v"
      "appendError (files srv) = None" "logDirExists (files srv) \<or> mkdirError (files srv) = None"
      by simp_all
    from POST_accepted_body(1)[OF adm b, of stringify now']
    show "fst (POST is_url stringify now now' req srv)
           = NextResponse (JObject [(''success'', JBool True)]) 200" .
    from POST_accepted_body(2)[OF adm b, of stringify now']
    show lf: "logFile (files (snd (POST is_url stringify now now' req srv)))
           = logFile (files srv) @ stringify (errorLog_of v (client_ip req) now') @ [CHR 0x0A]" .
    from errorLog_of_validated[OF b(2)]
    show "\<exists>fields. v = JObject fields \<and>
            errorLog_of v (client_ip req) now'
              = JObject (fields @ [(''ip'', JString (client_ip req)),
                                   (''serverTimestamp'', JNumber (of_int now'))])" .
    assume "CHR 0x0A \<notin> set (stringify (errorLog_of v (client_ip req) now'))"
    then have "count_list (stringify (errorLog_of v (client_ip req) now')) (CHR 0x0A) = 0"
      by (simp add: count_list_0_iff)
    with lf show "count_list (logFile (files (snd (POST is_url stringify now now' req srv)))) (CHR 0x0A)
              = count_list (logFile (files srv)) (CHR 0x0A) + 1"
      by simp
  }
qed


lemma client_ip_request_from: "client_ip (request_from ''10.0.0.1'' j) = ''10.0.0.1''"
  by (simp add: client_ip_def request_from_def)

lemma fresh_server_admits:
  "fst (checkRateLimit now ''10.0.0.1'' (rateLimitStore fresh_server))"
  by (simp add: checkRateLimit_def fresh_server_def no_records_def)

lemma readonly_server_admits:
  "fst (checkRateLimit now ''10.0.0.1'' (rateLimitStore readonly_server))"
  by (simp add: checkRateLimit_def readonly_server_def no_records_def)

lemma parse_report_with_message:
  "length m \<le> 1000 \<Longrightarrow>
   z_object_parse sample_is_url ErrorLogSchema (report_with_message m) = Inr (report_with_message m)"
  by (simp add: z_object_parse_def ErrorLogSchema_def report_with_message_def sample_is_url_def
      List.map_filter_simps)

lemma parse_report_too_long:
  "length m > 1000 \<Longrightarrow>
   z_object_parse sample_is_url ErrorLogSchema (report_with_message m) = Inl [''message'']"
  by (simp add: z_object_parse_def ErrorLogSchema_def report_with_message_def sample_is_url_def)

lemma parse_report_without_message:
  "z_object_parse sample_is_url ErrorLogSchema report_without_message = Inl [''message'']"
  by (simp add: z_object_parse_def ErrorLogSchema_def report_without_message_def sample_is_url_def)

lemma stringify_boom:
  "sample_stringify (errorLog_of (report_with_message ''boom'') ''10.0.0.1'' 6)
     = ''{'' @ [CHR 0x22] @ ''message'' @ [CHR 0x22] @ '':'' @ [CHR 0x22] @ ''boom'' @ [CHR 0x22]
       @ '','' @ [CHR 0x22] @ ''url'' @ [CHR 0x22] @ '':'' @ [CHR 0x22]
       @ ''https://sbtech.example/contact'' @ [CHR 0x22]
       @ '','' @ [CHR 0x22] @ ''timestamp'' @ [CHR 0x22] @ '':1700000000000''
       @ '','' @ [CHR 0x22] @ ''type'' @ [CHR 0x22] @ '':'' @ [CHR 0x22] @ ''error'' @ [CHR 0x22]
       @ '','' @ [CHR 0x22] @ ''ip'' @ [CHR 0x22] @ '':'' @ [CHR 0x22] @ ''10.0.0.1'' @ [CHR 0x22]
       @ '','' @ [CHR 0x22] @ ''serverTimestamp'' @ [CHR 0x22] @ '':6}''"
  by (simp add: sample_stringify_def errorLog_of_def report_with_message_def show_nat.simps)

text \<open>
  A first request of a client on a server without a \<^verbatim>\<open>logs\<close> directory: the report without
  \<open>message\<close> is answered 400 and writes nothing; the well-formed report is answered 200 and
  the log file holds its one line.
\<close>

theorem POST_validates_then_appends_witness:
  "response_status (fst (POST sample_is_url sample_stringify 5 6
       (request_from ''10.0.0.1'' report_without_message) fresh_server)) = 400
   \<and> files (snd (POST sample_is_url sample_stringify 5 6
       (request_from ''10.0.0.1'' report_without_message) fresh_server)) = files fresh_server
   \<and> fst (POST sample_is_url sample_stringify 5 6
       (request_from ''10.0.0.1'' (report_with_message ''boom'')) fresh_server)
       = NextResponse (JObject [(''success'', JBool True)]) 200
   \<and> logFile (files (snd (POST sample_is_url sample_stringify 5 6
       (request_from ''10.0.0.1'' (report_with_message ''boom'')) fresh_server)))
       = sample_stringify (errorLog_of (report_with_message ''boom'') ''10.0.0.1'' 6) @ [CHR 0x0A]
   \<and> count_list (logFile (files (snd (POST sample_is_url sample_stringify 5 6
       (request_from ''10.0.0.1'' (report_with_message ''boom'')) fresh_server)))) (CHR 0x0A) = 1"
proof -
  let ?bad = "request_from ''10.0.0.1'' report_without_message"
  let ?good = "request_from ''10.0.0.1'' (report_with_message ''boom'')"
  have adm_bad: "fst (checkRateLimit 5 (client_ip ?bad) (rateLimitStore fresh_server))"
    by (simp add: client_ip_request_from fresh_server_admits)
  have adm_good: "fst (checkRateLimit 5 (client_ip ?good) (rateLimitStore fresh_server))"
    by (simp add: client_ip_request_from fresh_server_admits)
  have bad: "json_body ?bad = Some report_without_message"
    "z_object_parse sample_is_url ErrorLogSchema report_without_message = Inl [''message'']"
    by (simp_all add: request_from_def parse_report_without_message)
  have good: "json_body ?good = Some (report_with_message ''boom'')"
    "z_object_parse sample_is_url ErrorLogSchema (report_with_message ''boom'')
       = Inr (report_with_message ''boom'')"
    by (simp_all add: request_from_def parse_report_with_message)
  have fs: "appendError (files fresh_server) = None" "mkdirError (files fresh_server) = None"
    "logFile (files fresh_server) = []"
    by (simp_all add: fresh_server_def)
  have nl: "CHR 0x0A \<notin> set (sample_stringify (errorLog_of (report_with_message ''boom'') ''10.0.0.1'' 6))"
    by (simp add: stringify_boom)
  from POST_validates_then_appends[OF adm_bad, of sample_is_url sample_stringify 6] bad
  have c1: "response_status (fst (POST sample_is_url sample_stringify 5 6 ?bad fresh_server)) = 400
    \<and> files (snd (POST sample_is_url sample_stringify 5 6 ?bad fresh_server)) = files fresh_server"
    by blast
  from POST_validates_then_appends[OF adm_good, of sample_is_url sample_stringify 6] good fs nl
  have c2: "fst (POST sample_is_url sample_stringify 5 6 ?good fresh_server)
       = NextResponse (JObject [(''success'', JBool True)]) 200
    \<and> logFile (files (snd (POST sample_is_url sample_stringify 5 6 ?good fresh_server)))
       = sample_stringify (errorLog_of (report_with_message ''boom'') ''10.0.0.1'' 6) @ [CHR 0x0A]
    \<and> count_list (logFile (files (snd (POST sample_is_url sample_stringify 5 6 ?good fresh_server))))
         (CHR 0x0A) = 1"
    by (simp add: client_ip_request_from)
  from c1 c2 show ?thesis by blast
qed


text \<open>
  C4 as stated fails for a client at its rate limit: the handler answers 429 before it
  reads the body, so a well-formed report is not appended and gets no success response,
  and a report without \<open>message\<close> gets 429, not 400.
\<close>

theorem POST_validates_then_appends_counterexample:
  "z_object_parse sample_is_url ErrorLogSchema (report_with_message ''boom'')
     = Inr (report_with_message ''boom'')
   \<and> fst (POST sample_is_url sample_stringify 60005 60006
        (request_from ''10.0.0.1'' (report_with_message ''boom'')) limited_server)
     = NextResponse
         (JObject [(''success'', JBool False), (''error'', JString ''Rate limit exceeded'')]) 429
   \<and> logFile (files (snd (POST sample_is_url sample_stringify 60005 60006
        (request_from ''10.0.0.1'' (report_with_message ''boom'')) limited_server)))
     = logFile (files limited_server)
   \<and> z_object_parse sample_is_url ErrorLogSchema report_without_message = Inl [''message'']
   \<and> response_status (fst (POST sample_is_url sample_stringify 60005 60006
        (request_from ''10.0.0.1'' report_without_message) limited_server))
     = 429"
proof -
  have refused: "\<And>j. checkRateLimit 60005 (client_ip (request_from ''10.0.0.1'' j))
      (rateLimitStore limited_server) = (False, rateLimitStore limited_server)"
    by (simp add: client_ip_request_from checkRateLimit_def limited_server_def)
  have "\<And>j. POST sample_is_url sample_stringify 60005 60006 (request_from ''10.0.0.1'' j)
      limited_server
      = (NextResponse
           (JObject [(''success'', JBool False), (''error'', JString ''Rate limit exceeded'')]) 429,
         limited_server)"
    by (simp add: POST_def POST_try_def refused)
  then show ?thesis
    by (simp add: parse_report_with_message parse_report_without_message)
qed

text \<open>
  C5, as amended. At the ingestion boundary the bound on \<open>message\<close> is 1000 characters and
  it rejects: an object whose \<open>message\<close> is a string longer than 1000 characters fails
  validation with an issue on \<open>message\<close> (and the handler answers an admitted request with
  400, writing nothing); a \<open>message\<close> of at most 1000 characters never raises an issue on
  \<open>message\<close>, and a report that passes validation carries its \<open>message\<close> unchanged, never
  truncated.
\<close>

theorem message_length_limit:
  "map_of props ''message'' = Some (JString m) \<Longrightarrow>
   (length m > 1000 \<longrightarrow>
      (\<exists>issues. z_object_parse is_url ErrorLogSchema (JObject props) = Inl issues \<and>
         ''message'' \<in> set issues))
   \<and> (length m > 1000 \<and> json_body req = Some (JObject props) \<and>
        fst (checkRateLimit now (client_ip req) (rateLimitStore srv)) \<longrightarrow>
        response_status (fst (POST is_url stringify now now' req srv)) = 400 \<and>
        files (snd (POST is_url stringify now now' req srv)) = files srv)
   \<and> (length m \<le> 1000 \<longrightarrow>
        (\<forall>issues. z_object_parse is_url ErrorLogSchema (JObject props) = Inl issues \<longrightarrow>
           ''message'' \<notin> set issues))
   \<and> (\<forall>v. z_object_parse is_url ErrorLogSchema (JObject props) = Inr v \<longrightarrow>
         length m \<le> 1000 \<and> (\<exists>fields. v = JObject ((''message'', JString m) # fields)))"
proof (intro conjI allI impI)
  assume msg: "map_of props ''message'' = Some (JString m)"
  have long: "\<exists>issues. z_object_parse is_url ErrorLogSchema (JObject props) = Inl issues \<and>
         ''message'' \<in> set issues" if "length m > 1000"
    using z_object_parse_rejects[of "''message''" "ZString [Max 1000]" ErrorLogSchema is_url props]
      msg that by (simp add: message_in_schema)
  {
    assume "length m > 1000"
    then show "\<exists>issues. z_object_parse is_url ErrorLogSchema (JObject props) = Inl issues \<and>
         ''message'' \<in> set issues" by (rule long)
  }
  {
    assume a: "length m > 1000 \<and> json_body req = Some (JObject props) \<and>
        fst (checkRateLimit now (client_ip req) (rateLimitStore srv))"
    with long obtain issues where
      "z_object_parse is_url ErrorLogSchema (JObject props) = Inl issues" by blast
    with a have rej: "json_body req = None \<or>
         (\<exists>j issues. json_body req = Some j \<and> z_object_parse is_url ErrorLogSchema j = Inl issues)"
      by blast
    from a have adm: "fst (checkRateLimit now (client_ip req) (rateLimitStore srv))" by simp
    from POST_rejected_body[OF adm rej, of stringify now']
    show "response_status (fst (POST is_url stringify now now' req srv)) = 400"
      and "files (snd (POST is_url stringify now now' req srv)) = files srv"
      by simp_all
  }
  {
    fix issues
    assume "length m \<le> 1000"
      and "z_object_parse is_url ErrorLogSchema (JObject props) = Inl issues"
    with msg show "''message'' \<notin> set issues"
      by (simp add: z_object_parse_issues message_in_schema)
  }
  {
    fix v
    assume v: "z_object_parse is_url ErrorLogSchema (JObject props) = Inr v"
    from z_object_parse_accepts[OF v, of "''message''" "ZString [Max 1000]"] msg
    show "length m \<le> 1000" by (simp add: message_in_schema)
    from validated_message_first[OF v msg]
    show "\<exists>fields. v = JObject ((''message'', JString m) # fields)" .
  }
qed

text \<open>
  C5 as stated fails: a report that is valid with a message of 1000 characters is
  rejected, and answered 400, with a message of 1001 characters; and a message of 201
  characters, beyond the stated default of 200, is accepted whole.
\<close>

theorem message_length_limit_counterexample:
  "z_object_parse sample_is_url ErrorLogSchema (report_with_message (replicate 1000 CHR ''a''))
     = Inr (report_with_message (replicate 1000 CHR ''a''))
   \<and> z_object_parse sample_is_url ErrorLogSchema (report_with_message (replicate 1001 CHR ''a''))
     = Inl [''message'']
   \<and> response_status (fst (POST sample_is_url sample_stringify 5 6
        (request_from ''10.0.0.1'' (report_with_message (replicate 1001 CHR ''a''))) fresh_server))
     = 400
   \<and> z_object_parse sample_is_url ErrorLogSchema (report_with_message (replicate 201 CHR ''a''))
     = Inr (report_with_message (replicate 201 CHR ''a''))"
proof -
  let ?req = "request_from ''10.0.0.1'' (report_with_message (replicate 1001 CHR ''a''))"
  have adm: "fst (checkRateLimit 5 (client_ip ?req) (rateLimitStore fresh_server))"
    by (simp add: client_ip_request_from fresh_server_admits)
  have long: "z_object_parse sample_is_url ErrorLogSchema
      (report_with_message (replicate 1001 CHR ''a'')) = Inl [''message'']"
    by (simp add: parse_report_too_long)
  then have "json_body ?req = None \<or>
      (\<exists>j issues. json_body ?req = Some j \<and>
         z_object_parse sample_is_url ErrorLogSchema j = Inl issues)"
    by (simp add: request_from_def)
  from POST_rejected_body(1)[OF adm this, of sample_stringify 6]
  have "response_status (fst (POST sample_is_url sample_stringify 5 6 ?req fresh_server)) = 400"
    by simp
  with long show ?thesis by (simp add: parse_report_with_message)
qed

text \<open>The amended statement at a report with 1001 and with 201 characters of message.\<close>

theorem message_length_limit_witness:
  "(\<exists>issues. z_object_parse sample_is_url ErrorLogSchema
        (report_with_message (replicate 1001 CHR ''a'')) = Inl issues \<and> ''message'' \<in> set issues)
   \<and> (\<exists>fields. z_object_parse sample_is_url ErrorLogSchema
        (report_with_message (replicate 201 CHR ''a''))
        = Inr (JObject ((''message'', JString (replicate 201 CHR ''a'')) # fields)))"
proof -
  have m: "\<And>s. map_of [(''message'', JString s), (''url'', JString ''https://sbtech.example/contact''),
              (''timestamp'', JNumber 1700000000000), (''type'', JString ''error'')] ''message''
            = Some (JString s)"
    by simp
  have c1: "\<exists>issues. z_object_parse sample_is_url ErrorLogSchema
        (report_with_message (replicate 1001 CHR ''a'')) = Inl issues \<and> ''message'' \<in> set issues"
    using message_length_limit[OF m, of "replicate 1001 CHR ''a''" sample_is_url]
    by (simp add: report_with_message_def)
  have ok: "z_object_parse sample_is_url ErrorLogSchema (report_with_message (replicate 201 CHR ''a''))
     = Inr (report_with_message (replicate 201 CHR ''a''))"
    by (simp add: parse_report_with_message)
  have c2: "\<exists>fields. z_object_parse sample_is_url ErrorLogSchema
        (report_with_message (replicate 201 CHR ''a''))
        = Inr (JObject ((''message'', JString (replicate 201 CHR ''a'')) # fields))"
    using message_length_limit[OF m, of "replicate 201 CHR ''a''" sample_is_url] ok
    by (simp add: report_with_message_def)
  from c1 c2 show ?thesis by blast
qed

text \<open>
  C6 against the code. For an admitted request with a valid body, whenever the persistence
  step throws (the directory cannot be created, or the append fails) the handler's single
  \<^verbatim>\<open>catch\<close> answers 400 "Invalid error log format": the same answer as for a validation
  failure, not a 5xx.
\<close>

theorem POST_persistence_failure_answers_400:
  "fst (checkRateLimit now (client_ip req) (rateLimitStore srv)) \<Longrightarrow>
   json_body req = Some j \<Longrightarrow> z_object_parse is_url ErrorLogSchema j = Inr v \<Longrightarrow>
   (\<forall>err. fst (persist (files srv) (stringify (errorLog_of v (client_ip req) now') @ [CHR 0x0A]))
           = Some err \<longrightarrow>
      fst (POST is_url stringify now now' req srv)
        = NextResponse
            (JObject [(''success'', JBool False), (''error'', JString ''Invalid error log format'')])
            400)
   \<and> (\<forall>err. appendError (files srv) = Some err \<and>
         (logDirExists (files srv) \<or> mkdirError (files srv) = None) \<longrightarrow>
      fst (persist (files srv) (stringify (errorLog_of v (client_ip req) now') @ [CHR 0x0A]))
        = Some err)
   \<and> (\<forall>err. \<not> logDirExists (files srv) \<and> mkdirError (files srv) = Some err \<longrightarrow>
      fst (persist (files srv) (stringify (errorLog_of v (client_ip req) now') @ [CHR 0x0A]))
        = Some err)"
proof (intro conjI allI impI)
  assume adm: "fst (checkRateLimit now (client_ip req) (rateLimitStore srv))"
    and j: "json_body req = Some j" and v: "z_object_parse is_url ErrorLogSchema j = Inr v"
  {
    fix err
    assume "fst (persist (files srv) (stringify (errorLog_of v (client_ip req) now') @ [CHR 0x0A]))
           = Some err"
    then show "fst (POST is_url stringify now now' req srv)
        = NextResponse
            (JObject [(''success'', JBool False), (''error'', JString ''Invalid error log format'')])
            400"
      by (rule POST_persist_throws[OF adm j v])
  }
  {
    fix err
    assume "appendError (files srv) = Some err \<and>
         (logDirExists (files srv) \<or> mkdirError (files srv) = None)"
    then show "fst (persist (files srv) (stringify (errorLog_of v (client_ip req) now') @ [CHR 0x0A]))
        = Some err"
      by (simp add: persist_append_fails)
  }
  {
    fix err
    assume "\<not> logDirExists (files srv) \<and> mkdirError (files srv) = Some err"
    then show "fst (persist (files srv) (stringify (errorLog_of v (client_ip req) now') @ [CHR 0x0A]))
        = Some err"
      by (simp add: persist_def mkdirSync_def)
  }
qed

text \<open>
  The failing input: a well-formed report from a client within its limit, on a server
  whose log file cannot be appended to (\<open>EACCES\<close>). The answer is 400.
\<close>

theorem POST_persistence_failure_answers_400_witness:
  "fst (POST sample_is_url sample_stringify 5 6
      (request_from ''10.0.0.1'' (report_with_message ''boom'')) readonly_server)
     = NextResponse
         (JObject [(''success'', JBool False), (''error'', JString ''Invalid error log format'')])
         400"
proof -
  let ?req = "request_from ''10.0.0.1'' (report_with_message ''boom'')"
  have adm: "fst (checkRateLimit 5 (client_ip ?req) (rateLimitStore readonly_server))"
    by (simp add: client_ip_request_from readonly_server_admits)
  have j: "json_body ?req = Some (report_with_message ''boom'')"
    by (simp add: request_from_def)
  have v: "z_object_parse sample_is_url ErrorLogSchema (report_with_message ''boom'')
       = Inr (report_with_message ''boom'')"
    by (simp add: parse_report_with_message)
  have fs: "appendError (files readonly_server) = Some (Error ''EACCES: permission denied'')"
    "logDirExists (files readonly_server)"
    by (simp_all add: readonly_server_def)
  from POST_persistence_failure_answers_400[OF adm j v, of sample_stringify 6] fs
  show ?thesis by blast
qed

end
